theory Spec2Isabelle
  imports Complex_Main
begin

section \<open>Values, errors and the store\<close>

text \<open>
  Numbers are modelled as reals: Python floats and numpy float64 without rounding.
  A one-dimensional numpy array is a list of reals. Every exception the source can
  raise is a value of \<open>py_error\<close>. Where numpy would go on with \<open>inf\<close> or \<open>nan\<close>
  (a division of an array by zero gives a warning, not an exception), the result is no
  real number, and the model stops with \<open>NonFinite\<close>: what such a run returns is
  followed no further. What it stores in an object before it returns is part of the
  model (\<open>BrendelDHO.__call__\<close> below).

  A lineshape keeps the list object it was given (\<open>self.p = params\<close>, no copy), and
  \<open>setparams\<close> writes into that list in place. Two lineshapes may therefore share one
  list, and the default argument of each constructor is one list shared by every
  object built with it. Parameter lists live in a store, and a lineshape holds the
  address of its list. The other attributes of a lineshape are kept in the object
  itself; the only one the code ever assigns after construction is \<open>f\<close>, in
  \<open>BrendelDHO.__call__\<close>, and no code path with numeric parameters reads it.
\<close>

datatype py_error =
  IndexError | ZeroDivisionError | TypeError | AttributeError | ValueError
  | AssertionError | NameError | NonFinite

type_synonym addr = nat

type_synonym heap = "addr \<Rightarrow> real list"

definition then_do :: "py_error + 'a \<Rightarrow> ('a \<Rightarrow> py_error + 'b) \<Rightarrow> py_error + 'b" where
  "then_do m k = (case m of Inl e \<Rightarrow> Inl e | Inr x \<Rightarrow> k x)"

definition getitem :: "'a list \<Rightarrow> nat \<Rightarrow> py_error + 'a" where
  "getitem xs i = (if i < length xs then Inr (xs ! i) else Inl IndexError)"

section \<open>numpy arithmetic on arrays\<close>

text \<open>
  Arithmetic on numpy arrays and numpy floats raises nothing on a zero divisor: numpy
  warns and goes on with \<open>inf\<close> or \<open>nan\<close>. Such a run leaves the reals, and the model
  reports \<open>NonFinite\<close> and follows it no further. Python's own floats raise
  ZeroDivisionError instead (\<open>py_div\<close>); the numbers in the parameter lists are taken
  to be Python floats, as the constructors' defaults are.
\<close>

definition np_div :: "real \<Rightarrow> real \<Rightarrow> py_error + real" where
  "np_div x y = (if y = 0 then Inl NonFinite else Inr (x / y))"

definition np_cdiv :: "complex \<Rightarrow> complex \<Rightarrow> py_error + complex" where
  "np_cdiv x y = (if y = 0 then Inl NonFinite else Inr (x / y))"

definition py_div :: "real \<Rightarrow> real \<Rightarrow> py_error + real" where
  "py_div x y = (if y = 0 then Inl ZeroDivisionError else Inr (x / y))"

text \<open>
  \<open>x ** y\<close> on floats: a negative base with an exponent that is no whole number gives
  \<open>nan\<close>, and zero to a negative exponent gives \<open>inf\<close>.
\<close>

definition np_power :: "real \<Rightarrow> real \<Rightarrow> py_error + real" where
  "np_power x y =
     (if 0 < x then Inr (x powr y)
      else if x = 0 then (if 0 < y then Inr 0 else if y = 0 then Inr 1 else Inl NonFinite)
      else if y = of_int \<lfloor>y\<rfloor> then Inr (x powi \<lfloor>y\<rfloor>)
      else Inl NonFinite)"

text \<open>An operation applied to every element of an array; the first failure is the result.\<close>

fun elementwise :: "('a \<Rightarrow> py_error + 'b) \<Rightarrow> 'a list \<Rightarrow> py_error + 'b list" where
  "elementwise g [] = Inr []"
| "elementwise g (x # xs) =
     then_do (g x) (\<lambda>y. then_do (elementwise g xs) (\<lambda>ys. Inr (y # ys)))"

text \<open>
  Two one-dimensional arrays in a binary operation: equal lengths pair up element by
  element, an array of length one is stretched to the other's length, and any other
  pair of lengths raises ValueError.
\<close>

definition broadcast :: "'a list \<Rightarrow> 'b list \<Rightarrow> py_error + ('a \<times> 'b) list" where
  "broadcast xs ys =
     (if length xs = length ys then Inr (zip xs ys)
      else if length xs = 1 then Inr (map (\<lambda>y. (hd xs, y)) ys)
      else if length ys = 1 then Inr (map (\<lambda>x. (x, hd ys)) xs)
      else Inl ValueError)"

definition np_add :: "real list \<Rightarrow> real list \<Rightarrow> py_error + real list" where
  "np_add xs ys = then_do (broadcast xs ys) (\<lambda>zs. Inr (map (\<lambda>(x, y). x + y) zs))"

definition np_sub :: "real list \<Rightarrow> real list \<Rightarrow> py_error + real list" where
  "np_sub xs ys = then_do (broadcast xs ys) (\<lambda>zs. Inr (map (\<lambda>(x, y). x - y) zs))"

definition np_divide :: "real list \<Rightarrow> real list \<Rightarrow> py_error + real list" where
  "np_divide xs ys = then_do (broadcast xs ys) (elementwise (\<lambda>(x, y). np_div x y))"

text \<open>
  The numpy functions \<open>zeros\<close>, \<open>dot\<close>, \<open>prod\<close> and \<open>diff\<close> carry the prefix
  \<open>np_\<close> here. \<open>dot\<close> of two one-dimensional arrays needs equal lengths.
\<close>

definition np_zeros :: "nat \<Rightarrow> real list" where
  "np_zeros n = replicate n 0"

definition np_dot :: "real list \<Rightarrow> real list \<Rightarrow> py_error + real" where
  "np_dot xs ys =
     (if length xs = length ys then Inr (sum_list (map (\<lambda>(x, y). x * y) (zip xs ys)))
      else Inl ValueError)"

definition np_prod :: "real list \<Rightarrow> real" where
  "np_prod xs = foldl (\<lambda>acc x. acc * x) 1 xs"

text \<open>\<open>diff\<close>: the differences of neighbours, \<open>a[1:] - a[:-1]\<close>.\<close>

definition np_diff :: "real list \<Rightarrow> real list" where
  "np_diff xs = map (\<lambda>(x, y). y - x) (zip xs (tl xs))"

text \<open>Python's \<open>max\<close> of a sequence raises ValueError on an empty one.\<close>

definition py_max :: "real list \<Rightarrow> py_error + real" where
  "py_max xs = (if xs = [] then Inl ValueError else Inr (Max (set xs)))"

text \<open>Python's \<open>int\<close> of a float drops the fraction.\<close>

definition py_int :: "real \<Rightarrow> int" where
  "py_int x = (if 0 \<le> x then \<lfloor>x\<rfloor> else \<lceil>x\<rceil>)"

text \<open>
  The functions taken from numpy and scipy whose code is no part of the repository:
  \<open>scipy.special.erfcx\<close> on complex numbers, and the names \<open>ifft\<close> and \<open>interp\<close> as
  the module finds them after \<open>from numpy import *\<close>. They are parameters of the
  model: a theorem holds whatever they compute or raise.
\<close>

record numlib =
  erfcx :: "complex \<Rightarrow> complex"
  ifft :: "complex list \<Rightarrow> nat \<Rightarrow> py_error + complex list"
  interp :: "real list \<Rightarrow> real list \<Rightarrow> real list \<Rightarrow> py_error + real list"

section \<open>Lineshape objects\<close>

datatype cls =
  Debye | DHO | BrendelDHO | DistributionOfDebye | StretchedExp | PowerLawDebye
  | ColeCole | VanVleck | Gaussian | Constant

text \<open>The class \<open>constant\<close> is written \<open>Constant\<close>: \<open>constant\<close> is a keyword of Isabelle.\<close>

datatype bound = MinusInf | Fin real | PlusInf

text \<open>
  A number as numpy computes it: a real number, or \<open>inf\<close> or \<open>nan\<close>. These are
  the values the attribute \<open>f\<close> can hold.
\<close>

datatype np_float = Number real | Inf_or_NaN

text \<open>
  The attributes of a lineshape object. \<open>pnames\<close> and \<open>type\<close> are not set by
  \<open>DistributionOfDebye\<close>, \<open>f\<close> is set by \<open>BrendelDHO\<close> only and \<open>convfac\<close> by
  \<open>PowerLawDebye\<close> only: an attribute that is not set is \<open>None\<close>.
\<close>

record lineshape =
  cls :: cls
  p :: addr
  bounds :: "(bound \<times> bound) list"
  name :: string
  pnames :: "string list option"
  type :: "string option"
  f :: "np_float option"
  convfac :: "real option"

definition Lineshape_init :: "cls \<Rightarrow> addr \<Rightarrow> (bound \<times> bound) list \<Rightarrow> string \<Rightarrow> lineshape" where
  "Lineshape_init c params bnds nm =
     \<lparr>cls = c, p = params, bounds = bnds, name = nm, pnames = None, type = None,
      f = None, convfac = None\<rparr>"

definition Debye_init :: "addr \<Rightarrow> (bound \<times> bound) list \<Rightarrow> string \<Rightarrow> lineshape" where
  "Debye_init params bnds nm =
     (Lineshape_init Debye params bnds nm)
       \<lparr>pnames := Some [''f'', ''wD''], type := Some ''Debye''\<rparr>"

definition DHO_init :: "addr \<Rightarrow> (bound \<times> bound) list \<Rightarrow> string \<Rightarrow> lineshape" where
  "DHO_init params bnds nm =
     (Lineshape_init DHO params bnds nm)
       \<lparr>pnames := Some [''f'', ''wT'', ''gamma''], type := Some ''DHO''\<rparr>"

definition BrendelDHO_init :: "addr \<Rightarrow> (bound \<times> bound) list \<Rightarrow> string \<Rightarrow> lineshape" where
  "BrendelDHO_init params bnds nm =
     (Lineshape_init BrendelDHO params bnds nm)
       \<lparr>pnames := Some [''wp**2/w0**2'', ''wT'', ''gamma'', ''sigma''],
        type := Some ''BrendelDHO'', f := Some (Number 0)\<rparr>"

definition DistributionOfDebye_init :: "addr \<Rightarrow> (bound \<times> bound) list \<Rightarrow> string \<Rightarrow> lineshape" where
  "DistributionOfDebye_init params bnds nm = Lineshape_init DistributionOfDebye params bnds nm"

definition StretchedExp_init :: "addr \<Rightarrow> (bound \<times> bound) list \<Rightarrow> string \<Rightarrow> lineshape" where
  "StretchedExp_init params bnds nm =
     (Lineshape_init StretchedExp params bnds nm)
       \<lparr>pnames := Some [''f'', ''tau'', ''beta''], type := Some ''StretchedExp''\<rparr>"

definition PowerLawDebye_init :: "addr \<Rightarrow> (bound \<times> bound) list \<Rightarrow> string \<Rightarrow> lineshape" where
  "PowerLawDebye_init params bnds nm =
     (Lineshape_init PowerLawDebye params bnds nm)
       \<lparr>pnames := Some [''f'', ''wD'', ''A'', ''q''], type := Some ''PowerLawDebye'',
        convfac := Some 1\<rparr>"

definition ColeCole_init :: "addr \<Rightarrow> (bound \<times> bound) list \<Rightarrow> string \<Rightarrow> lineshape" where
  "ColeCole_init params bnds nm =
     (Lineshape_init ColeCole params bnds nm)
       \<lparr>pnames := Some [''f'', ''wD'', ''alpha''], type := Some ''Debye''\<rparr>"

definition VanVleck_init :: "addr \<Rightarrow> (bound \<times> bound) list \<Rightarrow> string \<Rightarrow> lineshape" where
  "VanVleck_init params bnds nm =
     (Lineshape_init VanVleck params bnds nm)
       \<lparr>pnames := Some [''f'', ''wT'', ''gamma''], type := Some ''VanVleck''\<rparr>"

definition Gaussian_init :: "addr \<Rightarrow> (bound \<times> bound) list \<Rightarrow> string \<Rightarrow> lineshape" where
  "Gaussian_init params bnds nm =
     (Lineshape_init Gaussian params bnds nm)
       \<lparr>pnames := Some [''f'', ''wT'', ''gamma''], type := Some ''BRO''\<rparr>"

definition constant_init :: "addr \<Rightarrow> (bound \<times> bound) list \<Rightarrow> string \<Rightarrow> lineshape" where
  "constant_init params bnds nm =
     (Lineshape_init Constant params bnds nm)
       \<lparr>pnames := Some [''Eps float('inf').''], type := Some ''Constant''\<rparr>"

text \<open>
  The default arguments. Python evaluates \<open>params=[1,1]\<close> once, when the class is
  defined: every \<open>Debye()\<close> gets the same list object. \<open>default_heap\<close> is the store
  right after the module is loaded, with the default lists of \<open>Debye\<close>, \<open>DHO\<close>,
  \<open>BrendelDHO\<close> and \<open>constant\<close>, each at an address of its own. A list that the
  caller builds, as in \<open>Debye(params=[1,2])\<close>, is a new object at a new address.
\<close>

definition Debye_params :: addr where "Debye_params = 0"
definition DHO_params :: addr where "DHO_params = 1"
definition BrendelDHO_params :: addr where "BrendelDHO_params = 2"
definition constant_params :: addr where "constant_params = 3"

definition default_heap :: heap where
  "default_heap =
     (\<lambda>a. [])(Debye_params := [1, 1], DHO_params := [1, 1, 1],
              BrendelDHO_params := [1, 1, 1, 1], constant_params := [1])"

definition unbounded :: "bound \<times> bound" where
  "unbounded = (MinusInf, PlusInf)"

definition Debye_default :: lineshape where
  "Debye_default = Debye_init Debye_params [unbounded, unbounded] ''Debye''"

definition DHO_default :: lineshape where
  "DHO_default = DHO_init DHO_params [unbounded, unbounded] ''DHO''"

definition constant_default :: lineshape where
  "constant_default = constant_init constant_params [(Fin 0, Fin 10000)] ''Eps float('inf')''"

section \<open>The spectral model\<close>

text \<open>
  A model: its list of lineshapes, the counter \<open>numlineshapes\<close> (set to 0 by the
  constructor and raised by \<open>add\<close>, hence a natural number) and \<open>RMS_error\<close>.
\<close>

record SpectralModel =
  lineshapes :: "lineshape list"
  numlineshapes :: nat
  RMS_error :: real

definition SpectralModel_init :: "lineshape list \<Rightarrow> SpectralModel" where
  "SpectralModel_init ls = \<lparr>lineshapes = ls, numlineshapes = 0, RMS_error = 0\<rparr>"

definition add :: "SpectralModel \<Rightarrow> lineshape \<Rightarrow> SpectralModel" where
  "add M l = M\<lparr>lineshapes := lineshapes M @ [l], numlineshapes := numlineshapes M + 1\<rparr>"

text \<open>
  \<open>setparams\<close>: the inner loop runs \<open>j\<close> over \<open>range(len(l.p))\<close> and writes
  \<open>params[i]\<close> into \<open>l.p[j]\<close>; reading \<open>params[i]\<close> past the end raises IndexError,
  and the writes made before stay in the store.
\<close>

fun setparams_inner :: "addr \<Rightarrow> nat list \<Rightarrow> real list \<Rightarrow> nat \<Rightarrow> heap \<Rightarrow> heap \<times> (py_error + nat)" where
  "setparams_inner a [] params i h = (h, Inr i)"
| "setparams_inner a (j # js) params i h =
     (if i < length params
      then setparams_inner a js params (i + 1) (h(a := (h a)[j := params ! i]))
      else (h, Inl IndexError))"

fun setparams_outer :: "lineshape list \<Rightarrow> real list \<Rightarrow> nat \<Rightarrow> heap \<Rightarrow> heap \<times> (py_error + nat)" where
  "setparams_outer [] params i h = (h, Inr i)"
| "setparams_outer (l # ls) params i h =
     (case setparams_inner (p l) [0..<length (h (p l))] params i h of
        (h', Inl e) \<Rightarrow> (h', Inl e)
      | (h', Inr i') \<Rightarrow> setparams_outer ls params i' h')"

definition setparams :: "SpectralModel \<Rightarrow> real list \<Rightarrow> heap \<Rightarrow> heap \<times> (py_error + unit)" where
  "setparams M params h =
     (case setparams_outer (lineshapes M) params 0 h of
        (h', Inl e) \<Rightarrow> (h', Inl e)
      | (h', Inr i) \<Rightarrow> (h', Inr ()))"

definition getparams :: "SpectralModel \<Rightarrow> heap \<Rightarrow> real list" where
  "getparams M h = foldl (\<lambda>params lineshape. params @ h (p lineshape)) [] (lineshapes M)"

definition getbounds :: "SpectralModel \<Rightarrow> (bound \<times> bound) list" where
  "getbounds M = foldl (\<lambda>bnds lineshape. bnds @ bounds lineshape) [] (lineshapes M)"

text \<open>
  \<open>getfreqs\<close> and \<open>fsum\<close> run \<open>i\<close> over \<open>range(self.numlineshapes)\<close> and index
  \<open>self.lineshapes[i]\<close>. (\<open>getfreqs\<close> also prints \<open>i\<close>; output is not modelled.)
  In \<open>fsum\<close> the test \<open>p[0] == "BrendelDHO"\<close> compares a number with a string and is
  false for every numeric parameter, so the branch that reads \<open>self.f\<close> is never taken.
\<close>

fun getfreqs_loop :: "SpectralModel \<Rightarrow> heap \<Rightarrow> nat list \<Rightarrow> real list \<Rightarrow> py_error + real list" where
  "getfreqs_loop M h [] freqs = Inr freqs"
| "getfreqs_loop M h (i # is) freqs =
     then_do (getitem (lineshapes M) i) (\<lambda>l.
     then_do (getitem (h (p l)) 1) (\<lambda>v.
       getfreqs_loop M h is (freqs[i := v])))"

definition getfreqs :: "SpectralModel \<Rightarrow> heap \<Rightarrow> py_error + real list" where
  "getfreqs M h =
     getfreqs_loop M h [0..<numlineshapes M] (np_zeros (numlineshapes M))"

fun fsum_loop :: "SpectralModel \<Rightarrow> heap \<Rightarrow> nat list \<Rightarrow> real \<Rightarrow> py_error + real" where
  "fsum_loop M h [] fsum = Inr fsum"
| "fsum_loop M h (i # is) fsum =
     then_do (getitem (lineshapes M) i) (\<lambda>l.
     then_do (getitem (h (p l)) 0) (\<lambda>p0.
       fsum_loop M h is (fsum + p0)))"

definition fsum :: "SpectralModel \<Rightarrow> heap \<Rightarrow> py_error + real" where
  "fsum M h = fsum_loop M h [0..<numlineshapes M] 0"

text \<open>The number of parameters of a list of lineshapes: the lengths of their lists, added up.\<close>

definition total_len :: "heap \<Rightarrow> lineshape list \<Rightarrow> nat" where
  "total_len h ls = sum_list (map (\<lambda>l. length (h (p l))) ls)"

section \<open>Evaluating a lineshape\<close>

text \<open>
  \<open>__call__\<close> of each class, on the object \<open>self\<close> and the frequency array \<open>w\<close>. The
  result is the object after the call and what the call returns or raises.
\<close>

type_synonym spectrum = "real list \<times> real list"

definition Debye_call :: "heap \<Rightarrow> lineshape \<Rightarrow> real list \<Rightarrow> lineshape \<times> (py_error + spectrum)" where
  "Debye_call h self w =
     (self,
      then_do (getitem (h (p self)) 0) (\<lambda>p0.
      then_do (getitem (h (p self)) 1) (\<lambda>p1.
      then_do (elementwise (\<lambda>x. np_div (p0 * p1\<^sup>2) (p1\<^sup>2 + x\<^sup>2)) w) (\<lambda>rp.
      then_do (elementwise (\<lambda>(r, x). np_div (r * x) p1) (zip rp w)) (\<lambda>cp.
        Inr (rp, cp))))))"

definition DHO_call :: "heap \<Rightarrow> lineshape \<Rightarrow> real list \<Rightarrow> lineshape \<times> (py_error + spectrum)" where
  "DHO_call h self w =
     (self,
      then_do (getitem (h (p self)) 1) (\<lambda>p1.
      then_do (getitem (h (p self)) 2) (\<lambda>p2.
      then_do (getitem (h (p self)) 0) (\<lambda>p0.
      then_do (elementwise (\<lambda>x. np_div (p0 * p1\<^sup>2 * (p1\<^sup>2 - x\<^sup>2))
                                   ((p1\<^sup>2 - x\<^sup>2)\<^sup>2 + x\<^sup>2 * p2\<^sup>2)) w) (\<lambda>rp.
      then_do (elementwise (\<lambda>x. np_div (p0 * p1\<^sup>2 * p2 * x)
                                   ((p1\<^sup>2 - x\<^sup>2)\<^sup>2 + x\<^sup>2 * p2\<^sup>2)) w) (\<lambda>cp.
        Inr (rp, cp)))))))"

text \<open>
  \<open>BrendelDHO.__call__\<close> computes the complex array \<open>eps\<close>, stores \<open>eps.real[1]\<close>
  in \<open>self.f\<close>, which raises IndexError for fewer than two frequencies, and returns
  \<open>(eps.real, eps.imag)\<close>. Every division in it is one of numpy: on a zero divisor
  (\<open>sigma = 0\<close>, or \<open>a = 0\<close> at a frequency 0) numpy warns, raises nothing, and the
  entry of \<open>eps\<close> is \<open>inf\<close> or \<open>nan\<close> in both parts. An entry of \<open>eps\<close> is
  therefore a complex number or \<open>Inl NonFinite\<close>. \<open>prefac\<close> is one number computed
  before the array; where its divisor is zero, no entry of \<open>eps\<close> is finite. The
  assignment to \<open>self.f\<close> happens whether or not the entries are finite; the returned
  pair is followed only if all of them are.
\<close>

definition BrendelDHO_eps :: "(complex \<Rightarrow> complex) \<Rightarrow> real list \<Rightarrow> real list \<Rightarrow> py_error + (py_error + complex) list" where
  "BrendelDHO_eps erfcx_fn ps w =
     then_do (getitem ps 3) (\<lambda>sigma.
     then_do (getitem ps 1) (\<lambda>x0.
     then_do (getitem ps 2) (\<lambda>g.
     then_do (Inr (map (\<lambda>x. csqrt (complex_of_real (x\<^sup>2) - \<i> * complex_of_real g * complex_of_real x)) w)) (\<lambda>a.
     then_do (Inr (map (\<lambda>z. complex_of_real (Re z) - \<i> * complex_of_real (Im z)) a)) (\<lambda>a.
     then_do (getitem ps 0) (\<lambda>p0.
       Inr (map (\<lambda>z.
         then_do (np_cdiv (\<i> * complex_of_real (sqrt 3.14149) * complex_of_real p0 * complex_of_real (x0\<^sup>2))
                    (complex_of_real (sqrt 22 * sigma))) (\<lambda>prefac.
         then_do (np_cdiv 1 z) (\<lambda>inv_a.
         then_do (np_cdiv (- \<i> * (z - complex_of_real x0)) (complex_of_real sigma)) (\<lambda>z1.
         then_do (np_cdiv (- \<i> * (z + complex_of_real x0)) (complex_of_real sigma)) (\<lambda>z2.
           Inr (prefac * complex_of_real (exp (- 0.5)) * inv_a * (erfcx_fn z1 + erfcx_fn z2)))))))
         a)))))))"

text \<open>\<open>.real\<close> of one entry of such an array, as a numpy float.\<close>

definition np_real :: "py_error + complex \<Rightarrow> np_float" where
  "np_real z = (case z of Inl e \<Rightarrow> Inf_or_NaN | Inr c \<Rightarrow> Number (Re c))"

definition BrendelDHO_call :: "(complex \<Rightarrow> complex) \<Rightarrow> heap \<Rightarrow> lineshape \<Rightarrow> real list \<Rightarrow> lineshape \<times> (py_error + spectrum)" where
  "BrendelDHO_call erfcx_fn h self w =
     (case BrendelDHO_eps erfcx_fn (h (p self)) w of
        Inl e \<Rightarrow> (self, Inl e)
      | Inr eps \<Rightarrow>
          (case getitem eps 1 of
             Inl e \<Rightarrow> (self, Inl e)
           | Inr v \<Rightarrow>
               (self\<lparr>f := Some (np_real v)\<rparr>,
                then_do (elementwise (\<lambda>z. z) eps) (\<lambda>zs. Inr (map Re zs, map Im zs)))))"

text \<open>
  \<open>StretchedExp.calc_eps\<close>. \<open>log2\<close> of a number of points that is not positive is
  \<open>-inf\<close> or \<open>nan\<close>.
\<close>

definition calc_eps :: "numlib \<Rightarrow> heap \<Rightarrow> lineshape \<Rightarrow> real list \<Rightarrow> py_error + (real list \<times> complex list)" where
  "calc_eps lib h self w =
     then_do (getitem (h (p self)) 0) (\<lambda>deltaeps.
     then_do (getitem (h (p self)) 1) (\<lambda>tau.
     then_do (getitem (h (p self)) 2) (\<lambda>beta.
     then_do (py_max w) (\<lambda>maxw.
     then_do (np_div 1 (2 * 3.141 * maxw)) (\<lambda>timestep.
     then_do (np_div (3 * tau) timestep) (\<lambda>q.
     then_do (Inr (nat (py_int q))) (\<lambda>npts.
     then_do (Inr (map (\<lambda>k. real k * timestep) [0..<npts])) (\<lambda>times.
     then_do (elementwise (\<lambda>t.
                then_do (np_div t tau) (\<lambda>b.
                then_do (np_power b beta) (\<lambda>c. Inr (exp (- c))))) times) (\<lambda>corr_fun.
     then_do (if py_int q \<le> 0 then Inl NonFinite
              else Inr (nat (py_int (2 powr of_int \<lceil>log 2 (of_int (py_int q))\<rceil>)))) (\<lambda>nextpow2.
     then_do (elementwise (\<lambda>k. np_div ((1 / (2.99 * 0.01)) * real k) (timestep * real nextpow2))
                [0..<npts]) (\<lambda>fr.
     then_do (elementwise (\<lambda>d. np_div (- d) timestep) (np_diff corr_fun)) (\<lambda>tderiv.
     then_do (ifft lib (map complex_of_real tderiv) nextpow2) (\<lambda>y.
       Inr (fr, take npts (map (\<lambda>z. complex_of_real deltaeps * z) y)))))))))))))))"

definition StretchedExp_call :: "numlib \<Rightarrow> heap \<Rightarrow> lineshape \<Rightarrow> real list \<Rightarrow> lineshape \<times> (py_error + spectrum)" where
  "StretchedExp_call lib h self w =
     (self,
      then_do (calc_eps lib h self w) (\<lambda>(fr, eps_omega).
      then_do (interp lib w fr (map Re eps_omega)) (\<lambda>rp.
      then_do (interp lib w fr (map Im eps_omega)) (\<lambda>cp.
        Inr (rp, cp)))))"

text \<open>
  \<open>PowerLawDebye.__call__\<close>: \<open>tau = self.convfac/self.p[1]\<close> divides two Python
  floats. The values \<open>numomegas\<close> and \<open>start\<close> are computed and not used.
\<close>

definition PowerLawDebye_call :: "heap \<Rightarrow> lineshape \<Rightarrow> real list \<Rightarrow> lineshape \<times> (py_error + spectrum)" where
  "PowerLawDebye_call h self w =
     (self,
      then_do (getitem (h (p self)) 2) (\<lambda>A.
      then_do (getitem (h (p self)) 3) (\<lambda>q.
      then_do (case convfac self of None \<Rightarrow> Inl AttributeError | Some c \<Rightarrow> Inr c) (\<lambda>c.
      then_do (getitem (h (p self)) 1) (\<lambda>p1.
      then_do (py_div c p1) (\<lambda>tau.
      then_do (Inr (length w)) (\<lambda>numomegas.
      then_do (Inr (int numomegas - int (length (filter (\<lambda>x. x > p1) w)))) (\<lambda>start.
      then_do (elementwise (\<lambda>x. then_do (np_power (x * tau) q) (\<lambda>v. Inr (1 + A * v))) w) (\<lambda>TheWing.
      then_do (getitem (h (p self)) 0) (\<lambda>p0.
      then_do (elementwise (\<lambda>(t, x). np_div (t * p0) (1 + (tau * x)\<^sup>2)) (zip TheWing w)) (\<lambda>rp.
      then_do (elementwise (\<lambda>(t, x). np_div (t * p0 * x * tau) (1 + (tau * x)\<^sup>2)) (zip TheWing w)) (\<lambda>cp.
        Inr (rp, cp)))))))))))))"

definition ColeCole_call :: "heap \<Rightarrow> lineshape \<Rightarrow> real list \<Rightarrow> lineshape \<times> (py_error + spectrum)" where
  "ColeCole_call h self w =
     (self,
      then_do (getitem (h (p self)) 0) (\<lambda>p0.
      then_do (getitem (h (p self)) 1) (\<lambda>p1.
      then_do (elementwise (\<lambda>x. np_div (p0 * p1\<^sup>2) (p1\<^sup>2 + x\<^sup>2)) w) (\<lambda>rp.
      then_do (elementwise (\<lambda>(r, x). np_div (r * x) p1) (zip rp w)) (\<lambda>cp.
        Inr (rp, cp))))))"

text \<open>
  \<open>VanVleck.__call__\<close> and \<open>Gaussian.__call__\<close>. The line for \<open>rp\<close> reads
  \<open>.5*self.p[0]*(self.p[1]**2 + self.p[2]**2)( 1/(...) + 1.00/(...) )\<close>: there is no
  operator between the two parentheses, so Python calls the number
  \<open>self.p[1]**2 + self.p[2]**2\<close> with the array as its argument. The argument is
  evaluated first and raises nothing, whatever its values (numpy warns on a zero
  divisor); then the call raises TypeError, a number not being callable.
\<close>

definition call_number :: "real \<Rightarrow> py_error + real list \<Rightarrow> py_error + real list" where
  "call_number callee arg = Inl TypeError"

definition lorentz_sum :: "real \<Rightarrow> real \<Rightarrow> real list \<Rightarrow> py_error + real list" where
  "lorentz_sum p1 p2 w =
     elementwise (\<lambda>x.
       then_do (np_div 1 ((p1 - x)\<^sup>2 + p2\<^sup>2)) (\<lambda>a.
       then_do (np_div 1.00 ((p1 + x)\<^sup>2 + p2\<^sup>2)) (\<lambda>b. Inr (a + b)))) w"

definition VanVleck_call :: "heap \<Rightarrow> lineshape \<Rightarrow> real list \<Rightarrow> lineshape \<times> (py_error + spectrum)" where
  "VanVleck_call h self w =
     (self,
      then_do (getitem (h (p self)) 0) (\<lambda>p0.
      then_do (getitem (h (p self)) 1) (\<lambda>p1.
      then_do (getitem (h (p self)) 2) (\<lambda>p2.
      then_do (call_number (p1\<^sup>2 + p2\<^sup>2) (lorentz_sum p1 p2 w)) (\<lambda>r.
      then_do (Inr (map (\<lambda>v. 0.5 * p0 * v) r)) (\<lambda>rp.
      then_do (lorentz_sum p1 p2 w) (\<lambda>s.
      then_do (Inr (map (\<lambda>(x, v). 0.5 * p0 * p2 * x * v) (zip w s))) (\<lambda>cp.
        Inr (rp, cp)))))))))"

definition Gaussian_call :: "heap \<Rightarrow> lineshape \<Rightarrow> real list \<Rightarrow> lineshape \<times> (py_error + spectrum)" where
  "Gaussian_call h self w =
     (self,
      then_do (getitem (h (p self)) 0) (\<lambda>p0.
      then_do (getitem (h (p self)) 1) (\<lambda>p1.
      then_do (getitem (h (p self)) 2) (\<lambda>p2.
      then_do (call_number (p1\<^sup>2 + p2\<^sup>2) (lorentz_sum p1 p2 w)) (\<lambda>r.
      then_do (Inr (map (\<lambda>v. 0.5 * p0 * v) r)) (\<lambda>rp.
      then_do (lorentz_sum p1 p2 w) (\<lambda>s.
      then_do (Inr (map (\<lambda>(x, v). 0.5 * p0 * p2 * x * v) (zip w s))) (\<lambda>cp.
        Inr (rp, cp)))))))))"

definition constant_call :: "heap \<Rightarrow> lineshape \<Rightarrow> real list \<Rightarrow> lineshape \<times> (py_error + spectrum)" where
  "constant_call h self w =
     (self,
      then_do (getitem (h (p self)) 0) (\<lambda>p0.
        Inr (map (\<lambda>x. 0 * x + p0) w, map (\<lambda>x. 0 * x) w)))"

text \<open>
  Calling a lineshape object runs the \<open>__call__\<close> of its class.
  \<open>DistributionOfDebye\<close> defines none: calling such an object raises TypeError.
\<close>

definition lineshape_call :: "numlib \<Rightarrow> heap \<Rightarrow> lineshape \<Rightarrow> real list \<Rightarrow> lineshape \<times> (py_error + spectrum)" where
  "lineshape_call lib h self w =
     (case cls self of
        Debye \<Rightarrow> Debye_call h self w
      | DHO \<Rightarrow> DHO_call h self w
      | BrendelDHO \<Rightarrow> BrendelDHO_call (erfcx lib) h self w
      | DistributionOfDebye \<Rightarrow> (self, Inl TypeError)
      | StretchedExp \<Rightarrow> StretchedExp_call lib h self w
      | PowerLawDebye \<Rightarrow> PowerLawDebye_call h self w
      | ColeCole \<Rightarrow> ColeCole_call h self w
      | VanVleck \<Rightarrow> VanVleck_call h self w
      | Gaussian \<Rightarrow> Gaussian_call h self w
      | Constant \<Rightarrow> constant_call h self w)"

section \<open>Evaluating a model and the cost functions\<close>

text \<open>
  \<open>SpectralModel.__call__\<close>: \<open>rp\<close> and \<open>cp\<close> start as arrays of zeros of the length of
  \<open>w\<close>; each lineshape is called in turn and its parts are added. The loop returns the
  lineshape objects as the calls left them. It ends at the first call that raises or
  leaves the reals (\<open>NonFinite\<close>); the calls that numpy would still make after the
  latter are not followed.
\<close>

fun call_loop :: "numlib \<Rightarrow> heap \<Rightarrow> lineshape list \<Rightarrow> real list \<Rightarrow> spectrum \<Rightarrow> lineshape list \<times> (py_error + spectrum)" where
  "call_loop lib h [] w (rp, cp) = ([], Inr (rp, cp))"
| "call_loop lib h (lineshape # rest) w (rp, cp) =
     (case lineshape_call lib h lineshape w of
        (l', Inl e) \<Rightarrow> (l' # rest, Inl e)
      | (l', Inr (rpPart, cpPart)) \<Rightarrow>
          (case np_add rp rpPart of
             Inl e \<Rightarrow> (l' # rest, Inl e)
           | Inr rp' \<Rightarrow>
               (case np_add cp cpPart of
                  Inl e \<Rightarrow> (l' # rest, Inl e)
                | Inr cp' \<Rightarrow>
                    (case call_loop lib h rest w (rp', cp') of
                       (rest', r) \<Rightarrow> (l' # rest', r)))))"

definition SpectralModel_call :: "numlib \<Rightarrow> heap \<Rightarrow> SpectralModel \<Rightarrow> real list \<Rightarrow> SpectralModel \<times> (py_error + spectrum)" where
  "SpectralModel_call lib h M w =
     (case call_loop lib h (lineshapes M) w (np_zeros (length w), np_zeros (length w)) of
        (ls', r) \<Rightarrow> (M\<lparr>lineshapes := ls'\<rparr>, r))"

text \<open>
  The two functions local to \<open>fit_model\<close>. \<open>diffsq\<close> sets the parameters, evaluates the
  model at \<open>dataX\<close> and returns \<open>dot(diffcp, diffcp) + dot(diffrp, diffrp)\<close> of the
  relative residuals. \<open>costfun\<close>, which \<open>fit_model\<close> passes to
  \<open>optimize.differential_evolution\<close>, adds the f-sum penalty. Both change the store
  and the model: the result carries the model and the store after the call.
\<close>

definition fit_model_diffsq ::
  "numlib \<Rightarrow> SpectralModel \<Rightarrow> heap \<Rightarrow> real list \<Rightarrow> real list \<Rightarrow> real list \<Rightarrow> real list
     \<Rightarrow> (SpectralModel \<times> heap) \<times> (py_error + real)" where
  "fit_model_diffsq lib self h dataX datarp datacp params =
     (case setparams self params h of
        (h', Inl e) \<Rightarrow> ((self, h'), Inl e)
      | (h', Inr u) \<Rightarrow>
          (case SpectralModel_call lib h' self dataX of
             (self', Inl e) \<Rightarrow> ((self', h'), Inl e)
           | (self', Inr (rp, cp)) \<Rightarrow>
               ((self', h'),
                then_do (np_sub datarp rp) (\<lambda>d.
                then_do (np_divide d datarp) (\<lambda>diffrp.
                then_do (np_sub datacp cp) (\<lambda>d.
                then_do (np_divide d datacp) (\<lambda>diffcp.
                then_do (np_dot diffcp diffcp) (\<lambda>a.
                then_do (np_dot diffrp diffrp) (\<lambda>b.
                  Inr (a + b))))))))))"

definition fit_model_costfun ::
  "numlib \<Rightarrow> SpectralModel \<Rightarrow> heap \<Rightarrow> real list \<Rightarrow> real list \<Rightarrow> real list \<Rightarrow> real list
     \<Rightarrow> (SpectralModel \<times> heap) \<times> (py_error + real)" where
  "fit_model_costfun lib self h dataX datarp datacp params =
     (case fit_model_diffsq lib self h dataX datarp datacp params of
        (s, Inl e) \<Rightarrow> (s, Inl e)
      | ((self', h'), Inr Error) \<Rightarrow>
          ((self', h'),
           then_do (getitem datarp 0) (\<lambda>d0.
           then_do (fsum self' h') (\<lambda>fs.
           then_do (np_div (d0 - fs) d0) (\<lambda>fsumpenalty.
             Inr (Error + 100 * fsumpenalty\<^sup>2))))))"

text \<open>
  \<open>gLST_LHS\<close>. The two tests on \<open>type\<close> are two \<open>if\<close> statements; an entry of \<open>ratios\<close>
  that neither assigns keeps the 0 that \<open>zeros\<close> put there. The parameters divided are
  elements of the parameter lists.
\<close>

fun gLST_loop :: "SpectralModel \<Rightarrow> SpectralModel \<Rightarrow> heap \<Rightarrow> nat list \<Rightarrow> real list \<Rightarrow> py_error + real list" where
  "gLST_loop modelL modelT h [] ratios = Inr ratios"
| "gLST_loop modelL modelT h (i # is) ratios =
     then_do (getitem (lineshapes modelL) i) (\<lambda>lL.
     then_do (case type lL of None \<Rightarrow> Inl AttributeError | Some t \<Rightarrow> Inr t) (\<lambda>t.
     then_do (if t = ''Debye''
              then then_do (getitem (h (p lL)) 1) (\<lambda>L1.
                   then_do (getitem (lineshapes modelT) i) (\<lambda>lT.
                   then_do (getitem (h (p lT)) 1) (\<lambda>T1.
                   then_do (py_div L1 T1) (\<lambda>r. Inr (ratios[i := r])))))
              else Inr ratios) (\<lambda>ratios.
     then_do (if t = ''DHO'' \<or> t = ''VanVleck'' \<or> t = ''BrendelDHO''
              then then_do (getitem (h (p lL)) 1) (\<lambda>L1.
                   then_do (getitem (h (p lL)) 2) (\<lambda>L2.
                   then_do (getitem (lineshapes modelT) i) (\<lambda>lT.
                   then_do (getitem (h (p lT)) 1) (\<lambda>T1.
                   then_do (py_div (L1\<^sup>2 + L2\<^sup>2) (T1\<^sup>2)) (\<lambda>r. Inr (ratios[i := r]))))))
              else Inr ratios) (\<lambda>ratios.
       gLST_loop modelL modelT h is ratios))))"

definition gLST_LHS :: "SpectralModel \<Rightarrow> SpectralModel \<Rightarrow> heap \<Rightarrow> py_error + real" where
  "gLST_LHS modelL modelT h =
     (if numlineshapes modelL \<noteq> numlineshapes modelT then Inl AssertionError
      else then_do (gLST_loop modelL modelT h [0..<numlineshapes modelL]
                      (np_zeros (numlineshapes modelL)))
             (\<lambda>ratios. Inr (np_prod ratios)))"

text \<open>
  \<open>fit_model_gLST_constraint\<close> computes the longitudinal data once, and its local
  functions \<open>diffsq\<close> and \<open>costfun\<close> use them. \<open>costfun\<close> is what it passes to
  \<open>optimize.differential_evolution\<close>. It computes \<open>fsumpenalty\<close> and \<open>gLSTpenalty\<close>
  and then returns \<open>diffsq(paramsL, paramsT)\<close>: in the source the rest of the line,
  \<open>+ 50*fsumpenalty + 50*gLSTpenalty\<close>, is a comment.
\<close>

definition longitudinal_data :: "real list \<Rightarrow> real list \<Rightarrow> py_error + spectrum" where
  "longitudinal_data Tdatarp Tdatacp =
     then_do (np_add (map (\<lambda>x. x\<^sup>2) Tdatarp) (map (\<lambda>x. x\<^sup>2) Tdatacp)) (\<lambda>d.
     then_do (np_divide Tdatarp d) (\<lambda>Ldatarp.
     then_do (np_add (map (\<lambda>x. x\<^sup>2) Tdatarp) (map (\<lambda>x. x\<^sup>2) Tdatacp)) (\<lambda>d.
     then_do (np_divide Tdatacp d) (\<lambda>Ldatacp.
       Inr (Ldatarp, Ldatacp)))))"

text \<open>The sum of the two relative residuals of one model, \<open>(rp - r)/rp + (cp - c)/cp\<close>.\<close>

definition residual :: "real list \<Rightarrow> real list \<Rightarrow> real list \<Rightarrow> real list \<Rightarrow> py_error + real list" where
  "residual datarp datacp rp cp =
     then_do (np_sub datarp rp) (\<lambda>d.
     then_do (np_divide d datarp) (\<lambda>a.
     then_do (np_sub datacp cp) (\<lambda>d.
     then_do (np_divide d datacp) (\<lambda>b.
       np_add a b))))"

definition gLST_diffsq ::
  "numlib \<Rightarrow> SpectralModel \<Rightarrow> SpectralModel \<Rightarrow> heap \<Rightarrow> real list \<Rightarrow> real list \<Rightarrow> real list
     \<Rightarrow> real list \<Rightarrow> real list \<Rightarrow> real list \<Rightarrow> real list
     \<Rightarrow> (SpectralModel \<times> SpectralModel \<times> heap) \<times> (py_error + real)" where
  "gLST_diffsq lib modelL modelT h dataX Tdatarp Tdatacp Ldatarp Ldatacp paramsL paramsT =
     (case setparams modelL paramsL h of
        (h1, Inl e) \<Rightarrow> ((modelL, modelT, h1), Inl e)
      | (h1, Inr u) \<Rightarrow>
     (case setparams modelT paramsT h1 of
        (h2, Inl e) \<Rightarrow> ((modelL, modelT, h2), Inl e)
      | (h2, Inr u) \<Rightarrow>
     (case SpectralModel_call lib h2 modelL dataX of
        (modelL', Inl e) \<Rightarrow> ((modelL', modelT, h2), Inl e)
      | (modelL', Inr (Lrp, Lcp)) \<Rightarrow>
     (case SpectralModel_call lib h2 modelT dataX of
        (modelT', Inl e) \<Rightarrow> ((modelL', modelT', h2), Inl e)
      | (modelT', Inr (Trp, Tcp)) \<Rightarrow>
          ((modelL', modelT', h2),
           then_do (residual Ldatarp Ldatacp Lrp Lcp) (\<lambda>Ldiff.
           then_do (residual Tdatarp Tdatacp Trp Tcp) (\<lambda>Tdiff.
           then_do (np_dot Tdiff Tdiff) (\<lambda>a.
           then_do (np_dot Ldiff Ldiff) (\<lambda>b.
             Inr (a + b))))))))))"

text \<open>
  What \<open>costfun\<close> computes before it calls \<open>diffsq\<close>: \<open>eps0 = Tdatarp[0]\<close>,
  \<open>eps_inf = Tdatarp[-1]\<close>, \<open>fsumpenalty\<close>, \<open>gLST_RHS\<close> and \<open>gLSTpenalty\<close>, any of
  which may raise.
\<close>

definition gLST_penalties ::
  "SpectralModel \<Rightarrow> SpectralModel \<Rightarrow> heap \<Rightarrow> real list \<Rightarrow> py_error + (real \<times> real)" where
  "gLST_penalties modelL modelT h Tdatarp =
     then_do (getitem Tdatarp 0) (\<lambda>eps0.
     then_do (if Tdatarp = [] then Inl IndexError else Inr (last Tdatarp)) (\<lambda>eps_inf.
     then_do (fsum modelT h) (\<lambda>fs.
     then_do (np_div (- fs) eps0) (\<lambda>q.
     then_do (Inr (q\<^sup>2)) (\<lambda>fsumpenalty.
     then_do (np_div eps0 eps_inf) (\<lambda>gLST_RHS.
     then_do (gLST_LHS modelL modelT h) (\<lambda>lhs.
     then_do (Inr ((lhs - gLST_RHS)\<^sup>2)) (\<lambda>gLSTpenalty.
       Inr (fsumpenalty, gLSTpenalty)))))))))"

definition gLST_costfun ::
  "numlib \<Rightarrow> SpectralModel \<Rightarrow> SpectralModel \<Rightarrow> heap \<Rightarrow> real list \<Rightarrow> real list \<Rightarrow> real list
     \<Rightarrow> real list \<Rightarrow> real list \<Rightarrow> real list
     \<Rightarrow> (SpectralModel \<times> SpectralModel \<times> heap) \<times> (py_error + real)" where
  "gLST_costfun lib modelL modelT h dataX Tdatarp Tdatacp Ldatarp Ldatacp params =
     (let paramsL = take (length params div 2) params;
          paramsT = drop (length params div 2) params
      in case gLST_penalties modelL modelT h Tdatarp of
           Inl e \<Rightarrow> ((modelL, modelT, h), Inl e)
         | Inr (fsumpenalty, gLSTpenalty) \<Rightarrow>
             gLST_diffsq lib modelL modelT h dataX Tdatarp Tdatacp Ldatarp Ldatacp
               paramsL paramsT)"

text \<open>
  The types \<open>gLST_LHS\<close> has a ratio for, and what it needs at index \<open>j\<close> to raise
  nothing there: both lists of lineshapes have the index, the longitudinal lineshape has
  a \<open>type\<close>, the parameters it reads exist, and the divisor is not zero.
\<close>

definition matched :: "string \<Rightarrow> bool" where
  "matched t = (t = ''Debye'' \<or> t = ''DHO'' \<or> t = ''VanVleck'' \<or> t = ''BrendelDHO'')"

definition gLST_ready :: "SpectralModel \<Rightarrow> SpectralModel \<Rightarrow> heap \<Rightarrow> nat \<Rightarrow> bool" where
  "gLST_ready modelL modelT h j =
     (j < length (lineshapes modelL) \<and> j < length (lineshapes modelT) \<and>
      (case type (lineshapes modelL ! j) of
         None \<Rightarrow> False
       | Some t \<Rightarrow>
           (if t = ''Debye''
            then 1 < length (h (p (lineshapes modelL ! j))) \<and>
                 1 < length (h (p (lineshapes modelT ! j))) \<and>
                 h (p (lineshapes modelT ! j)) ! 1 \<noteq> 0
            else if t = ''DHO'' \<or> t = ''VanVleck'' \<or> t = ''BrendelDHO''
            then 2 < length (h (p (lineshapes modelL ! j))) \<and>
                 1 < length (h (p (lineshapes modelT ! j))) \<and>
                 h (p (lineshapes modelT ! j)) ! 1 \<noteq> 0
            else True)))"

section \<open>The k, omega script\<close>

text \<open>
  The loop of \<open>kw.py\<close> that fills \<open>chikw\<close>, from the columns \<open>corr_funs\<close> of the
  correlation data, the \<open>timestep\<close> and the array \<open>chik0\<close>. \<open>fft.ifft\<close> is numpy's and a
  parameter; \<open>temp\<close> is one array for all columns, created once with \<open>num_points\<close>
  zeros. \<open>mean\<close> of an empty slice is \<open>nan\<close>, and \<open>log2\<close> of no timesteps is
  \<open>-inf\<close>. The script is Python 2: \<open>ntimesteps/num_points\<close> divides integers, and
  the float that \<open>floor\<close> makes of the quotient is taken as a slice bound by the numpy
  of the time.
\<close>

definition num_points :: nat where
  "num_points = 1000"

definition np_mean :: "complex list \<Rightarrow> py_error + complex" where
  "np_mean xs = (if xs = [] then Inl NonFinite else Inr (sum_list xs / of_nat (length xs)))"

definition py_slice :: "'a list \<Rightarrow> nat \<Rightarrow> nat \<Rightarrow> 'a list" where
  "py_slice xs a b = take (b - a) (drop a xs)"

text \<open>
  The inner loop, \<open>for i in xrange(1,num_points-1)\<close>, writes the mean of block \<open>i - 1\<close>
  of \<open>y\<close> into \<open>temp[i-1]\<close>.
\<close>

fun block_average :: "complex list \<Rightarrow> nat \<Rightarrow> nat list \<Rightarrow> complex list \<Rightarrow> py_error + complex list" where
  "block_average y num_avg_over [] temp = Inr temp"
| "block_average y num_avg_over (i # is) temp =
     then_do (np_mean (py_slice y ((i - 1) * num_avg_over) (i * num_avg_over))) (\<lambda>m.
       block_average y num_avg_over is (temp[i - 1 := m]))"

text \<open>
  The outer loop, \<open>for k in range(Nk)\<close>: the time derivative of column \<open>k\<close>, its
  inverse FFT padded to \<open>nextpow2\<close>, the block averages, and
  \<open>chikw[:,k] = -chik0[k]*imag(temp)\<close>.
\<close>

fun chikw_loop ::
  "(complex list \<Rightarrow> nat \<Rightarrow> py_error + complex list) \<Rightarrow> real list list \<Rightarrow> real \<Rightarrow> real list
     \<Rightarrow> nat \<Rightarrow> nat \<Rightarrow> nat list \<Rightarrow> complex list \<Rightarrow> real list list \<Rightarrow> py_error + real list list" where
  "chikw_loop fft_ifft corr_funs timestep chik0 num_avg_over nextpow2 [] temp chikw = Inr chikw"
| "chikw_loop fft_ifft corr_funs timestep chik0 num_avg_over nextpow2 (k # ks) temp chikw =
     then_do (getitem corr_funs k) (\<lambda>corr_fun.
     then_do (elementwise (\<lambda>d. np_div d timestep) (np_diff corr_fun)) (\<lambda>tderiv.
     then_do (fft_ifft (map complex_of_real tderiv) nextpow2) (\<lambda>y.
     then_do (block_average y num_avg_over [1..<num_points - 1] temp) (\<lambda>temp.
     then_do (getitem chik0 k) (\<lambda>chik0_k.
       chikw_loop fft_ifft corr_funs timestep chik0 num_avg_over nextpow2 ks temp
         (chikw[k := map (\<lambda>t. - chik0_k * Im t) temp]))))))"

definition kw_chikw ::
  "(complex list \<Rightarrow> nat \<Rightarrow> py_error + complex list) \<Rightarrow> real list list \<Rightarrow> real \<Rightarrow> real list
     \<Rightarrow> nat \<Rightarrow> py_error + real list list" where
  "kw_chikw fft_ifft corr_funs timestep chik0 ntimesteps =
     (if ntimesteps = 0 then Inl NonFinite
      else chikw_loop fft_ifft corr_funs timestep chik0
             (ntimesteps div num_points)
             (nat (py_int (2 powr of_int \<lceil>log 2 (real ntimesteps)\<rceil>)))
             [0..<length corr_funs]
             (replicate num_points 0)
             (replicate (length corr_funs) (np_zeros num_points)))"

text \<open>A column whose last two entries are 0.\<close>

definition last_two_zero :: "real list \<Rightarrow> bool" where
  "last_two_zero col = (drop (num_points - 2) col = [0, 0])"

section \<open>The claims' words\<close>

text \<open>
  What the claims say the code computes, written from their words, to be compared with
  the functions above. The elementwise sum of \<open>n\<close>-element arrays; the real and the
  imaginary part a lineshape returns at \<open>w\<close> (empty when the call raises).
\<close>

definition elementwise_sum :: "nat \<Rightarrow> real list list \<Rightarrow> real list" where
  "elementwise_sum n parts = map (\<lambda>i. sum_list (map (\<lambda>r. r ! i) parts)) [0..<n]"

definition returned_rp :: "numlib \<Rightarrow> heap \<Rightarrow> real list \<Rightarrow> lineshape \<Rightarrow> real list" where
  "returned_rp lib h w l =
     (case snd (lineshape_call lib h l w) of Inl e \<Rightarrow> [] | Inr (rpPart, cpPart) \<Rightarrow> rpPart)"

definition returned_cp :: "numlib \<Rightarrow> heap \<Rightarrow> real list \<Rightarrow> lineshape \<Rightarrow> real list" where
  "returned_cp lib h w l =
     (case snd (lineshape_call lib h l w) of Inl e \<Rightarrow> [] | Inr (rpPart, cpPart) \<Rightarrow> cpPart)"

text \<open>
  The sum of squared relative residuals of data against a model, the sum of the first
  parameter \<open>p[0]\<close> over a list of lineshapes, and the cost that claim C3 states:
  the residuals of the real and of the imaginary part plus
  \<open>100 * ((datarp[0] - fsum)/datarp[0])^2\<close>.
\<close>

definition squared_relative_residuals :: "real list \<Rightarrow> real list \<Rightarrow> real" where
  "squared_relative_residuals data model =
     sum_list (map (\<lambda>(d, m). ((d - m) / d)\<^sup>2) (zip data model))"

definition p0_sum :: "heap \<Rightarrow> lineshape list \<Rightarrow> real" where
  "p0_sum h ls = sum_list (map (\<lambda>l. h (p l) ! 0) ls)"

definition claimed_cost :: "real list \<Rightarrow> real list \<Rightarrow> real list \<Rightarrow> real list \<Rightarrow> real \<Rightarrow> real" where
  "claimed_cost datarp datacp rp cp fs =
     squared_relative_residuals datarp rp + squared_relative_residuals datacp cp
       + 100 * ((datarp ! 0 - fs) / datarp ! 0)\<^sup>2"

section \<open>Example objects\<close>

text \<open>
  Objects the theorems are tried on: a longitudinal and a transverse model of one Debye
  lineshape each (\<open>Debye(params=[1,2])\<close> and \<open>Debye(params=[1,1])\<close>, each list at an
  address of its own), and the same two models with a constant term added.
\<close>

definition example_heap :: heap where
  "example_heap = default_heap(10 := [1, 2], 11 := [1, 1], 12 := [1], 13 := [1])"

definition example_L1 :: SpectralModel where
  "example_L1 = add (SpectralModel_init []) (Debye_init 10 [unbounded, unbounded] ''Debye'')"

definition example_T1 :: SpectralModel where
  "example_T1 = add (SpectralModel_init []) (Debye_init 11 [unbounded, unbounded] ''Debye'')"

definition example_L2 :: SpectralModel where
  "example_L2 = add example_L1 (constant_init 12 [(Fin 0, Fin 10000)] ''eps'')"

definition example_T2 :: SpectralModel where
  "example_T2 = add example_T1 (constant_init 13 [(Fin 0, Fin 10000)] ''eps'')"

text \<open>
  \<open>scipy.special.erfcx\<close> as scipy documents it, \<open>exp(z**2) * erfc(z)\<close> with
  \<open>erfc = 1 - erf\<close> and \<open>erf\<close> by its power series; a BrendelDHO lineshape
  \<open>BrendelDHO(params=[1,1,0,1])\<close> with its list at address 20; and the value of \<open>eps\<close>
  at the frequency 1 for these parameters, with \<open>e\<close> for \<open>erfcx\<close>.
\<close>

definition erf_series :: "complex \<Rightarrow> complex" where
  "erf_series z =
     complex_of_real (2 / sqrt pi) *
       (\<Sum>n. (- 1) ^ n * z ^ (2 * n + 1) / (fact n * of_nat (2 * n + 1)))"

definition scipy_erfcx :: "complex \<Rightarrow> complex" where
  "scipy_erfcx z = exp (z\<^sup>2) * (1 - erf_series z)"

definition example_Brendel :: lineshape where
  "example_Brendel =
     BrendelDHO_init 20
       [(Fin 0, PlusInf), (Fin 0, PlusInf), (Fin 0, PlusInf), (Fin 0, PlusInf)] ''BrendelDHO''"

definition example_Brendel_heap :: heap where
  "example_Brendel_heap = default_heap(20 := [1, 1, 0, 1])"

definition brendel_example_value :: "(complex \<Rightarrow> complex) \<Rightarrow> complex" where
  "brendel_example_value e =
     \<i> * complex_of_real (sqrt 3.14149) / complex_of_real (sqrt 22)
       * complex_of_real (exp (- 0.5)) * (e 0 + e (- 2 * \<i>))"

section \<open>Parameter round trip and the lineshape counter\<close>


text \<open>The definitions to unfold when an example or an array operation is evaluated.\<close>

lemmas example_defs =
  example_heap_def example_L1_def example_T1_def example_L2_def example_T2_def
  add_def SpectralModel_init_def Debye_init_def constant_init_def Lineshape_init_def
  default_heap_def Debye_params_def DHO_params_def BrendelDHO_params_def constant_params_def
  Debye_default_def constant_default_def

lemmas np_defs =
  np_add_def np_sub_def np_divide_def np_dot_def np_div_def np_zeros_def broadcast_def

lemma then_do_Inr [simp]: "then_do (Inr x) k = k x"
  by (simp add: then_do_def)

lemma then_do_Inl [simp]: "then_do (Inl e) k = Inl e"
  by (simp add: then_do_def)

lemma getparams_concat: "getparams M h = concat (map (\<lambda>l. h (p l)) (lineshapes M))"
proof -
  have "foldl (\<lambda>params l. params @ h (p l)) acc ls = acc @ concat (map (\<lambda>l. h (p l)) ls)"
    for acc and ls :: "lineshape list"
    by (induction ls arbitrary: acc) simp_all
  then show ?thesis by (simp add: getparams_def)
qed


lemma setparams_inner_upt:
  "n = length (h a) \<Longrightarrow> k \<le> n \<Longrightarrow> i + (n - k) \<le> length params \<Longrightarrow>
   setparams_inner a [k..<n] params i h =
     (h(a := take k (h a) @ take (n - k) (drop i params)), Inr (i + (n - k)))"
proof (induction "n - k" arbitrary: k i h)
  case 0
  then show ?case by simp
next
  case (Suc d)
  then have kn: "k < n" and ip: "i < length params" by simp_all
  let ?h = "h(a := (h a)[k := params ! i])"
  have d: "d = n - Suc k" using Suc.hyps by simp
  have ih: "setparams_inner a [Suc k..<n] params (Suc i) ?h =
     (?h(a := take (Suc k) (?h a) @ take (n - Suc k) (drop (Suc i) params)), Inr (Suc i + (n - Suc k)))"
    using Suc.hyps(1)[OF d, of ?h "Suc i"] Suc.prems kn by simp
  have t1: "take (Suc k) ((h a)[k := params ! i]) = take k (h a) @ [params ! i]"
    using kn Suc.prems(1) by (simp add: take_Suc_conv_app_nth)
  have t2: "params ! i # take (n - Suc k) (drop (Suc i) params) = take (n - k) (drop i params)"
    using kn ip by (metis Cons_nth_drop_Suc Suc_diff_Suc take_Suc_Cons)
  have "take (Suc k) (?h a) @ take (n - Suc k) (drop (Suc i) params)
        = take k (h a) @ take (n - k) (drop i params)"
    using t1 t2 by simp
  then show ?case
    using ih kn ip by (simp add: upt_conv_Cons)
qed

lemma setparams_inner_all:
  "i + length (h a) \<le> length params \<Longrightarrow>
   setparams_inner a [0..<length (h a)] params i h =
     (h(a := take (length (h a)) (drop i params)), Inr (i + length (h a)))"
  using setparams_inner_upt[of "length (h a)" h a 0 i params] by simp


lemma setparams_outer_ok:
  "distinct (map p ls) \<Longrightarrow> i + total_len h ls \<le> length params \<Longrightarrow>
   \<exists>h'. setparams_outer ls params i h = (h', Inr (i + total_len h ls))
       \<and> concat (map (\<lambda>l. h' (p l)) ls) = take (total_len h ls) (drop i params)
       \<and> (\<forall>a. a \<notin> p ` set ls \<longrightarrow> h' a = h a)"
proof (induction ls arbitrary: i h)
  case Nil
  then show ?case by (simp add: total_len_def)
next
  case (Cons l ls)
  let ?a = "p l" and ?n = "length (h (p l))"
  let ?h1 = "h(?a := take ?n (drop i params))"
  have notin: "?a \<notin> p ` set ls" and dist: "distinct (map p ls)"
    using Cons.prems(1) by auto
  have tl: "total_len h (l # ls) = ?n + total_len h ls" by (simp add: total_len_def)
  have "?h1 (p x) = h (p x)" if "x \<in> set ls" for x
  proof -
    from that have "p x \<in> p ` set ls" by (rule imageI)
    with notin have "p x \<noteq> p l" by metis
    then show ?thesis by simp
  qed
  then have same: "total_len ?h1 ls = total_len h ls"
    by (simp add: total_len_def cong: map_cong)
  have inner: "setparams_inner ?a [0..<?n] params i h = (?h1, Inr (i + ?n))"
    using setparams_inner_all[of i h ?a params] Cons.prems(2) tl by simp
  have "(i + ?n) + total_len ?h1 ls \<le> length params"
    using Cons.prems(2) tl same by simp
  from Cons.IH[OF dist this] obtain h' where
    h': "setparams_outer ls params (i + ?n) ?h1 = (h', Inr (i + ?n + total_len ?h1 ls))"
        "concat (map (\<lambda>l. h' (p l)) ls) = take (total_len ?h1 ls) (drop (i + ?n) params)"
        "\<forall>a. a \<notin> p ` set ls \<longrightarrow> h' a = ?h1 a"
    by blast
  have ha: "h' ?a = take ?n (drop i params)" using h'(3) notin by simp
  have dd: "drop (i + ?n) params = drop ?n (drop i params)"
    by (simp add: add.commute)
  have "take ?n (drop i params) @ take (total_len h ls) (drop (i + ?n) params)
        = take (?n + total_len h ls) (drop i params)"
    unfolding dd take_add ..
  then have c: "concat (map (\<lambda>l. h' (p l)) (l # ls)) = take (total_len h (l # ls)) (drop i params)"
    using ha h'(2) same tl by simp
  have f: "\<forall>a. a \<notin> p ` set (l # ls) \<longrightarrow> h' a = h a" using h'(3) by simp
  have "setparams_outer (l # ls) params i h = (h', Inr (i + total_len h (l # ls)))"
    using inner h'(1) same tl by (simp add: add.assoc)
  with c f show ?case by blast
qed

lemma setparams_outer_id:
  "take (total_len h ls) (drop i params) = concat (map (\<lambda>l. h (p l)) ls) \<Longrightarrow>
   i + total_len h ls \<le> length params \<Longrightarrow>
   setparams_outer ls params i h = (h, Inr (i + total_len h ls))"
proof (induction ls arbitrary: i)
  case Nil
  then show ?case by (simp add: total_len_def)
next
  case (Cons l ls)
  let ?a = "p l" and ?n = "length (h (p l))"
  have tl: "total_len h (l # ls) = ?n + total_len h ls" by (simp add: total_len_def)
  have eq: "take (?n + total_len h ls) (drop i params) = h ?a @ concat (map (\<lambda>l. h (p l)) ls)"
    using Cons.prems(1) tl by simp
  have "take ?n (take (?n + total_len h ls) (drop i params)) = h ?a"
    unfolding eq by simp
  then have hd: "take ?n (drop i params) = h ?a" by (simp add: min_def)
  have "drop ?n (take (?n + total_len h ls) (drop i params)) = concat (map (\<lambda>l. h (p l)) ls)"
    unfolding eq by simp
  moreover have dd: "drop (i + ?n) params = drop ?n (drop i params)"
    by (simp add: add.commute)
  ultimately have rest: "take (total_len h ls) (drop (i + ?n) params) = concat (map (\<lambda>l. h (p l)) ls)"
    by (simp add: drop_take)
  have inner: "setparams_inner ?a [0..<?n] params i h = (h, Inr (i + ?n))"
    using setparams_inner_all[of i h ?a params] Cons.prems(2) tl hd by simp
  have "setparams_outer ls params (i + ?n) h = (h, Inr (i + ?n + total_len h ls))"
    using Cons.IH[OF rest] Cons.prems(2) tl by simp
  then show ?case using inner tl by (simp add: add.assoc)
qed


lemma foldl_add_fields:
  "lineshapes (foldl add M ls) = lineshapes M @ ls \<and>
   numlineshapes (foldl add M ls) = numlineshapes M + length ls"
  by (induction ls arbitrary: M) (simp_all add: add_def)

text \<open>
  Claim C9. A model built by the constructor without arguments and changed by \<open>add\<close>
  only has \<open>numlineshapes\<close> equal to the length of \<open>lineshapes\<close>: each \<open>add\<close> appends
  the lineshape and adds one to the counter. The constructor sets the counter to 0
  whatever list it is given, so the two agree only for the empty list, and right after
  construction \<open>fsum\<close> returns 0 and \<open>getfreqs\<close> an empty array: the lineshapes given
  to the constructor are not looked at.
\<close>

theorem counter_invariant:
  "numlineshapes (foldl add (SpectralModel_init []) ls)
     = length (lineshapes (foldl add (SpectralModel_init []) ls))
   \<and> lineshapes (add M l) = lineshapes M @ [l]
   \<and> numlineshapes (add M l) = numlineshapes M + 1
   \<and> numlineshapes (SpectralModel_init ls) = 0
   \<and> (numlineshapes (SpectralModel_init ls) = length (lineshapes (SpectralModel_init ls)))
       = (ls = [])
   \<and> fsum (SpectralModel_init ls) h = Inr 0
   \<and> getfreqs (SpectralModel_init ls) h = Inr []"
proof -
  have "(0 = length ls) = (ls = [])" by auto
  then show ?thesis
    by (simp add: foldl_add_fields add_def SpectralModel_init_def fsum_def getfreqs_def np_zeros_def)
qed

text \<open>
  Claim C8, amended. When the lineshapes of a model hold pairwise different list
  objects and \<open>ps\<close> has as many numbers as these lists together, \<open>setparams(ps)\<close>
  raises nothing and \<open>getparams()\<close> then returns \<open>ps\<close>. For every model, shared lists
  or not, \<open>setparams(getparams())\<close> raises nothing and leaves the store as it was.
\<close>

theorem setparams_getparams_roundtrip:
  "(distinct (map p (lineshapes M)) \<longrightarrow>
    length ps = sum_list (map (\<lambda>l. length (h (p l))) (lineshapes M)) \<longrightarrow>
      snd (setparams M ps h) = Inr () \<and> getparams M (fst (setparams M ps h)) = ps)
   \<and> setparams M (getparams M h) h = (h, Inr ())"
proof (intro conjI impI)
  assume d: "distinct (map p (lineshapes M))"
    and len: "length ps = sum_list (map (\<lambda>l. length (h (p l))) (lineshapes M))"
  then have "0 + total_len h (lineshapes M) \<le> length ps"
    by (simp add: total_len_def)
  from setparams_outer_ok[OF d this] obtain h' where
    h': "setparams_outer (lineshapes M) ps 0 h = (h', Inr (0 + total_len h (lineshapes M)))"
        "concat (map (\<lambda>l. h' (p l)) (lineshapes M)) = take (total_len h (lineshapes M)) (drop 0 ps)"
    by blast
  from h'(1) have s: "setparams M ps h = (h', Inr ())"
    by (simp add: setparams_def)
  then show "snd (setparams M ps h) = Inr ()" by simp
  show "getparams M (fst (setparams M ps h)) = ps"
    using s h'(2) len by (simp add: getparams_concat total_len_def)
next
  have "take (total_len h (lineshapes M)) (drop 0 (getparams M h))
          = concat (map (\<lambda>l. h (p l)) (lineshapes M))"
    by (simp add: getparams_concat total_len_def length_concat comp_def)
  moreover have "0 + total_len h (lineshapes M) \<le> length (getparams M h)"
    by (simp add: getparams_concat total_len_def length_concat comp_def)
  ultimately have "setparams_outer (lineshapes M) (getparams M h) 0 h
                     = (h, Inr (0 + total_len h (lineshapes M)))"
    by (rule setparams_outer_id)
  then show "setparams M (getparams M h) h = (h, Inr ())"
    by (simp add: setparams_def)
qed

text \<open>
  The theorem at the example model of a Debye lineshape and a constant term, whose lists
  are two objects: \<open>setparams([5,6,7])\<close>, then \<open>getparams()\<close>.
\<close>

theorem setparams_getparams_roundtrip_witness:
  "distinct (map p (lineshapes example_L2))
   \<and> length [5, 6, 7 :: real]
       = sum_list (map (\<lambda>l. length (example_heap (p l))) (lineshapes example_L2))
   \<and> snd (setparams example_L2 [5, 6, 7] example_heap) = Inr ()
   \<and> getparams example_L2 (fst (setparams example_L2 [5, 6, 7] example_heap)) = [5, 6, 7]"
  using setparams_getparams_roundtrip [of example_L2 "[5, 6, 7]" example_heap]
  by (simp add: example_defs)

text \<open>
  Claim C8 as stated fails when two lineshapes share a list. Two \<open>Debye()\<close> objects
  built with the default argument hold the same list: after \<open>setparams([1,2,3,4])\<close>
  the list is \<open>[3,4]\<close>, and \<open>getparams()\<close> returns \<open>[3,4,3,4]\<close>.
\<close>

theorem setparams_getparams_shared_list:
  "numlineshapes (add (add (SpectralModel_init []) Debye_default) Debye_default)
     = length (lineshapes (add (add (SpectralModel_init []) Debye_default) Debye_default))
   \<and> length [1, 2, 3, 4::real]
     = sum_list (map (\<lambda>l. length (default_heap (p l)))
         (lineshapes (add (add (SpectralModel_init []) Debye_default) Debye_default)))
   \<and> snd (setparams (add (add (SpectralModel_init []) Debye_default) Debye_default)
         [1, 2, 3, 4] default_heap) = Inr ()
   \<and> getparams (add (add (SpectralModel_init []) Debye_default) Debye_default)
        (fst (setparams (add (add (SpectralModel_init []) Debye_default) Debye_default)
           [1, 2, 3, 4] default_heap))
      = [3, 4, 3, 4]"
  by (simp add: add_def SpectralModel_init_def Debye_default_def Debye_init_def Lineshape_init_def
      default_heap_def Debye_params_def DHO_params_def BrendelDHO_params_def constant_params_def
      setparams_def getparams_def upt_rec)

section \<open>The lineshapes ColeCole, VanVleck and Gaussian; gLST\<close>

lemma getitem_simps [simp]:
  "getitem (x # xs) 0 = Inr x"
  "getitem (x # xs) (Suc n) = getitem xs n"
  "getitem (x # xs) (numeral k) = getitem xs (pred_numeral k)"
  "getitem [] i = Inl IndexError"
  by (simp_all add: getitem_def numeral_eq_Suc)

text \<open>
  Claim C6 does not hold of the code. \<open>ColeCole.__call__\<close> is the same computation as
  \<open>Debye.__call__\<close>: it reads \<open>p[0]\<close> and \<open>p[1]\<close> only, and for parameters
  \<open>[f, wD, alpha]\<close> it returns what a Debye lineshape with \<open>[f, wD]\<close> returns,
  whatever \<open>alpha\<close> is.
\<close>

theorem ColeCole_is_Debye:
  "ColeCole_call h self w = Debye_call h self w
   \<and> snd (ColeCole_call (h(p self := [f0, wD, alpha])) self w)
       = snd (Debye_call (h(p self := [f0, wD])) self w)"
  by (simp add: ColeCole_call_def Debye_call_def)

text \<open>
  Claim C5 does not hold of the code. With three parameters \<open>[f, wT, gamma]\<close>,
  calling a VanVleck or a Gaussian lineshape raises TypeError for every frequency
  array, and with any parameter list neither call ever returns a pair.
\<close>

theorem VanVleck_Gaussian_raise_TypeError:
  "snd (VanVleck_call (h(p self := [f0, wT, gamma])) self w) = Inl TypeError
   \<and> snd (Gaussian_call (h(p self := [f0, wT, gamma])) self w) = Inl TypeError
   \<and> \<not> (\<exists>r. snd (VanVleck_call h self w) = Inr r)
   \<and> \<not> (\<exists>r. snd (Gaussian_call h self w) = Inr r)"
proof -
  have a: "snd (VanVleck_call h self w) \<noteq> Inr r" for h r
    by (simp add: VanVleck_call_def call_number_def then_do_def split: sum.splits)
  have b: "snd (Gaussian_call h self w) \<noteq> Inr r" for h r
    by (simp add: Gaussian_call_def call_number_def then_do_def split: sum.splits)
  show ?thesis using a b
    by (simp add: VanVleck_call_def Gaussian_call_def call_number_def)
qed

lemma np_prod_prod_list: "np_prod xs = prod_list xs"
proof -
  have "foldl (\<lambda>acc x. acc * x) a xs = a * prod_list xs" for a :: real
    by (induction xs arbitrary: a) (simp_all add: mult.assoc)
  then show ?thesis by (simp add: np_prod_def)
qed

lemma np_prod_zero: "i < length xs \<Longrightarrow> xs ! i = 0 \<Longrightarrow> np_prod xs = 0"
  by (metis np_prod_prod_list nth_mem prod_list_zero_iff)

lemma getitem_nth: "i < length xs \<Longrightarrow> getitem xs i = Inr (xs ! i)"
  by (simp add: getitem_def)

lemma gLST_step_Debye:
  assumes "t = ''Debye''" "type lL = Some t" "getitem (lineshapes modelL) j = Inr lL"
    "getitem (lineshapes modelT) j = Inr lT" "getitem (h (p lL)) 1 = Inr a"
    "getitem (h (p lT)) 1 = Inr b" "b \<noteq> 0"
  shows "gLST_loop modelL modelT h (j # js) ratios
           = gLST_loop modelL modelT h js (ratios[j := a / b])"
  using assms by (simp add: py_div_def)

lemma gLST_step_DHO:
  assumes "t = ''DHO'' \<or> t = ''VanVleck'' \<or> t = ''BrendelDHO''"
    "type lL = Some t" "getitem (lineshapes modelL) j = Inr lL"
    "getitem (lineshapes modelT) j = Inr lT" "getitem (h (p lL)) 1 = Inr a"
    "getitem (h (p lL)) 2 = Inr c"
    "getitem (h (p lT)) 1 = Inr b" "b \<noteq> 0"
  shows "gLST_loop modelL modelT h (j # js) ratios
           = gLST_loop modelL modelT h js (ratios[j := (a\<^sup>2 + c\<^sup>2) / b\<^sup>2])"
proof -
  have "t \<noteq> ''Debye''" using assms(1) by auto
  then show ?thesis using assms by (simp add: py_div_def)
qed

lemma gLST_step_other:
  assumes "\<not> matched t" "type lL = Some t" "getitem (lineshapes modelL) j = Inr lL"
  shows "gLST_loop modelL modelT h (j # js) ratios = gLST_loop modelL modelT h js ratios"
  using assms by (simp add: matched_def)

lemma gLST_loop_step:
  assumes "gLST_ready modelL modelT h j"
  shows "\<exists>v. gLST_loop modelL modelT h (j # js) ratios
           = gLST_loop modelL modelT h js
               (if matched (the (type (lineshapes modelL ! j))) then ratios[j := v] else ratios)"
proof -
  let ?lL = "lineshapes modelL ! j" and ?lT = "lineshapes modelT ! j"
  have jL: "j < length (lineshapes modelL)" and jT: "j < length (lineshapes modelT)"
    using assms by (simp_all add: gLST_ready_def)
  from assms obtain t where t: "type ?lL = Some t"
    by (cases "type ?lL") (simp_all add: gLST_ready_def)
  have gL: "getitem (lineshapes modelL) j = Inr ?lL"
    and gT: "getitem (lineshapes modelT) j = Inr ?lT"
    using jL jT by (simp_all add: getitem_nth)
  show ?thesis
  proof (cases "matched t")
    case False
    then show ?thesis using gLST_step_other[OF False t gL] t by simp
  next
    case True
    show ?thesis
    proof (cases "t = ''Debye''")
      case d: True
      then have r: "1 < length (h (p ?lL))" "1 < length (h (p ?lT))" "h (p ?lT) ! 1 \<noteq> 0"
        using assms t by (simp_all add: gLST_ready_def)
      have "gLST_loop modelL modelT h (j # js) ratios
             = gLST_loop modelL modelT h js (ratios[j := h (p ?lL) ! 1 / h (p ?lT) ! 1])"
        by (rule gLST_step_Debye[OF d t gL gT getitem_nth[OF r(1)] getitem_nth[OF r(2)] r(3)])
      then show ?thesis using True t by auto
    next
      case nd: False
      then have o: "t = ''DHO'' \<or> t = ''VanVleck'' \<or> t = ''BrendelDHO''"
        using True by (simp add: matched_def)
      have r: "2 < length (h (p ?lL))" "1 < length (h (p ?lT))" "h (p ?lT) ! 1 \<noteq> 0"
        using assms t nd o by (simp_all add: gLST_ready_def)
      then have r1: "1 < length (h (p ?lL))" by simp
      have "gLST_loop modelL modelT h (j # js) ratios
             = gLST_loop modelL modelT h js
                 (ratios[j := ((h (p ?lL) ! 1)\<^sup>2 + (h (p ?lL) ! 2)\<^sup>2) / (h (p ?lT) ! 1)\<^sup>2])"
        by (rule gLST_step_DHO[OF o t gL gT getitem_nth[OF r1] getitem_nth[OF r(1)]
              getitem_nth[OF r(2)] r(3)])
      then show ?thesis using True t by auto
    qed
  qed
qed

lemma gLST_loop_returns:
  assumes "\<forall>j\<in>set js. gLST_ready modelL modelT h j"
  shows "\<exists>r. gLST_loop modelL modelT h js ratios = Inr r \<and> length r = length ratios \<and>
           (\<forall>k. \<not> matched (the (type (lineshapes modelL ! k))) \<longrightarrow> r ! k = ratios ! k)"
  using assms
proof (induction js arbitrary: ratios)
  case Nil
  then show ?case by simp
next
  case (Cons j js)
  then have rdy: "gLST_ready modelL modelT h j"
    and rest: "\<forall>j\<in>set js. gLST_ready modelL modelT h j" by simp_all
  from gLST_loop_step[OF rdy, of js ratios] obtain v where
    step: "gLST_loop modelL modelT h (j # js) ratios
             = gLST_loop modelL modelT h js
                 (if matched (the (type (lineshapes modelL ! j))) then ratios[j := v] else ratios)"
    by (rule exE)
  show ?case
  proof (cases "matched (the (type (lineshapes modelL ! j)))")
    case True
    from Cons.IH[OF rest, of "ratios[j := v]"] obtain r where
      r: "gLST_loop modelL modelT h js (ratios[j := v]) = Inr r"
         "length r = length (ratios[j := v])"
         "\<forall>k. \<not> matched (the (type (lineshapes modelL ! k))) \<longrightarrow> r ! k = (ratios[j := v]) ! k"
      by (elim exE conjE)
    have "r ! k = ratios ! k" if "\<not> matched (the (type (lineshapes modelL ! k)))" for k
    proof -
      have "k \<noteq> j" using that True by auto
      then show ?thesis using r(3) that by simp
    qed
    then show ?thesis using step True r(1,2) by simp
  next
    case False
    from Cons.IH[OF rest, of ratios] show ?thesis using step False by simp
  qed
qed

text \<open>
  Claim C10, amended. For two models with equal \<open>numlineshapes\<close> such that
  \<open>gLST_LHS\<close> raises nothing at any index below \<open>numlineshapes\<close> (\<open>gLST_ready\<close>):
  when some index \<open>i\<close> below \<open>numlineshapes\<close> has a longitudinal lineshape whose type is
  none of "Debye", "DHO", "VanVleck" and "BrendelDHO", \<open>gLST_LHS\<close> returns 0.
\<close>

theorem gLST_LHS_unmatched_type:
  assumes "numlineshapes modelL = numlineshapes modelT"
    and "\<forall>j < numlineshapes modelL. gLST_ready modelL modelT h j"
    and "i < numlineshapes modelL"
    and "type (lineshapes modelL ! i) = Some t"
    and "t \<notin> {''Debye'', ''DHO'', ''VanVleck'', ''BrendelDHO''}"
  shows "gLST_LHS modelL modelT h = Inr 0"
proof -
  let ?n = "numlineshapes modelL"
  have "\<forall>j\<in>set [0..<?n]. gLST_ready modelL modelT h j" using assms(2) by simp
  from gLST_loop_returns[OF this, of "np_zeros ?n"] obtain r where
    r: "gLST_loop modelL modelT h [0..<?n] (np_zeros ?n) = Inr r"
       "length r = length (np_zeros ?n)"
       "\<forall>k. \<not> matched (the (type (lineshapes modelL ! k))) \<longrightarrow> r ! k = np_zeros ?n ! k"
    by (elim exE conjE)
  have "\<not> matched (the (type (lineshapes modelL ! i)))"
    using assms(4,5) by (simp add: matched_def)
  then have "r ! i = 0" using r(3) assms(3) by (simp add: np_zeros_def)
  moreover have "i < length r" using r(2) assms(3) by (simp add: np_zeros_def)
  ultimately have "np_prod r = 0" by (rule np_prod_zero[rotated])
  then show ?thesis using r(1) assms(1) by (simp add: gLST_LHS_def)
qed

text \<open>
  The theorem at the example models: a Debye lineshape and a constant term each.
\<close>

theorem gLST_LHS_unmatched_type_witness:
  "numlineshapes example_L2 = numlineshapes example_T2
   \<and> gLST_ready example_L2 example_T2 example_heap 0
   \<and> gLST_ready example_L2 example_T2 example_heap 1
   \<and> (1::nat) < numlineshapes example_L2
   \<and> type (lineshapes example_L2 ! 1) = Some ''Constant''
   \<and> ''Constant'' \<notin> {''Debye'', ''DHO'', ''VanVleck'', ''BrendelDHO''}
   \<and> gLST_LHS example_L2 example_T2 example_heap = Inr 0"
proof -
  have n: "numlineshapes example_L2 = 2" "numlineshapes example_T2 = 2"
    by (simp_all add: example_defs)
  have r0: "gLST_ready example_L2 example_T2 example_heap 0"
    by (simp add: gLST_ready_def example_defs)
  have r1: "gLST_ready example_L2 example_T2 example_heap 1"
    by (simp add: gLST_ready_def example_defs)
  have all: "\<forall>j < numlineshapes example_L2. gLST_ready example_L2 example_T2 example_heap j"
    using r0 r1 n by (simp add: numeral_2_eq_2 less_Suc_eq)
  have t: "type (lineshapes example_L2 ! 1) = Some ''Constant''"
    by (simp add: example_defs)
  have nin: "''Constant'' \<notin> {''Debye'', ''DHO'', ''VanVleck'', ''BrendelDHO''}" by simp
  have "gLST_LHS example_L2 example_T2 example_heap = Inr 0"
    by (rule gLST_LHS_unmatched_type[OF _ all _ t nin]) (simp_all add: n)
  then show ?thesis using n r0 r1 t nin by simp
qed

text \<open>
  Claim C10 as stated fails in three ways, each with a constant term in the
  longitudinal model. A transverse lineshape with one parameter under a longitudinal
  Debye raises IndexError; a transverse Debye with \<open>wD = 0\<close> raises
  ZeroDivisionError; and models given their lineshapes through the constructor have
  \<open>numlineshapes = 0\<close>, so the product is empty and the result is 1.
\<close>

theorem gLST_LHS_raises_or_returns_one:
  "numlineshapes (add (add (SpectralModel_init []) Debye_default) constant_default)
     = numlineshapes (add (add (SpectralModel_init []) constant_default) constant_default)
   \<and> type (lineshapes (add (add (SpectralModel_init []) Debye_default) constant_default) ! 1)
     = Some ''Constant''
   \<and> gLST_LHS (add (add (SpectralModel_init []) Debye_default) constant_default)
        (add (add (SpectralModel_init []) constant_default) constant_default) default_heap
     = Inl IndexError
   \<and> gLST_LHS example_L2 example_T2 (example_heap(11 := [1, 0])) = Inl ZeroDivisionError
   \<and> numlineshapes (SpectralModel_init [constant_default])
     = numlineshapes (SpectralModel_init [constant_default])
   \<and> type (lineshapes (SpectralModel_init [constant_default]) ! 0) = Some ''Constant''
   \<and> gLST_LHS (SpectralModel_init [constant_default]) (SpectralModel_init [constant_default])
        default_heap = Inr 1"
  by (simp add: example_defs gLST_LHS_def np_zeros_def np_prod_def py_div_def upt_rec)

lemma example_call_L1:
  "SpectralModel_call lib example_heap example_L1 [1] = (example_L1, Inr ([4/5], [2/5]))"
  by (simp add: SpectralModel_call_def lineshape_call_def Debye_call_def example_defs np_defs
      power2_eq_square)

lemma example_call_T1:
  "SpectralModel_call lib example_heap example_T1 [1] = (example_T1, Inr ([1/2], [1/2]))"
  by (simp add: SpectralModel_call_def lineshape_call_def Debye_call_def example_defs np_defs
      power2_eq_square)

lemma example_setparams:
  "setparams example_L1 [1, 2] example_heap = (example_heap, Inr ())"
  "setparams example_T1 [1, 1] example_heap = (example_heap, Inr ())"
  by (simp_all add: setparams_def example_defs upt_rec fun_eq_iff)

lemma example_diffsq:
  "snd (gLST_diffsq lib example_L1 example_T1 example_heap [1] [1] [1] [1/2] [1/2] [1, 2] [1, 1])
     = Inr (29/25)"
  by (simp add: gLST_diffsq_def example_setparams example_call_L1 example_call_T1 residual_def
      np_defs power2_eq_square)

lemma example_penalties:
  "gLST_penalties example_L1 example_T1 example_heap [1] = Inr (1, 1)"
  by (simp add: gLST_penalties_def fsum_def gLST_LHS_def np_zeros_def np_prod_def py_div_def
      np_div_def example_defs upt_rec)

text \<open>
  Claim C1 does not hold of the code. Whenever the penalties can be computed, the value
  of \<open>costfun\<close> is the value of \<open>diffsq\<close>, and the penalties take no part in it. At
  the example models with data \<open>dataX = [1]\<close>, \<open>Tdatarp = [1]\<close>, \<open>Tdatacp = [1]\<close>
  the gLST penalty is 1 and the cost is \<open>29/25\<close>, which is \<open>diffsq\<close> alone: it is
  not \<open>diffsq\<close> plus a positive multiple of the penalty.
\<close>

theorem gLST_costfun_is_diffsq:
  "snd (gLST_costfun lib modelL modelT h dataX Tdatarp Tdatacp Ldatarp Ldatacp params)
     = (case gLST_penalties modelL modelT h Tdatarp of
          Inl e \<Rightarrow> Inl e
        | Inr penalties \<Rightarrow>
            snd (gLST_diffsq lib modelL modelT h dataX Tdatarp Tdatacp Ldatarp Ldatacp
                   (take (length params div 2) params) (drop (length params div 2) params)))
   \<and> longitudinal_data [1] [1] = Inr ([1/2], [1/2])
   \<and> gLST_penalties example_L1 example_T1 example_heap [1] = Inr (1, 1)
   \<and> snd (gLST_costfun lib example_L1 example_T1 example_heap [1] [1] [1] [1/2] [1/2] [1, 2, 1, 1])
       = Inr (29/25)
   \<and> \<not> (\<exists>c>0. snd (gLST_costfun lib example_L1 example_T1 example_heap [1] [1] [1]
                          [1/2] [1/2] [1, 2, 1, 1]) = Inr (29/25 + c * 1))"
proof (intro conjI)
  show "snd (gLST_costfun lib modelL modelT h dataX Tdatarp Tdatacp Ldatarp Ldatacp params)
     = (case gLST_penalties modelL modelT h Tdatarp of
          Inl e \<Rightarrow> Inl e
        | Inr penalties \<Rightarrow>
            snd (gLST_diffsq lib modelL modelT h dataX Tdatarp Tdatacp Ldatarp Ldatacp
                   (take (length params div 2) params) (drop (length params div 2) params)))"
    by (simp add: gLST_costfun_def Let_def split: sum.splits prod.splits)
  show "longitudinal_data [1] [1] = Inr ([1/2], [1/2])"
    by (simp add: longitudinal_data_def np_defs)
  show "gLST_penalties example_L1 example_T1 example_heap [1] = Inr (1, 1)"
    by (rule example_penalties)
  show "snd (gLST_costfun lib example_L1 example_T1 example_heap [1] [1] [1] [1/2] [1/2] [1, 2, 1, 1])
       = Inr (29/25)"
    by (simp add: gLST_costfun_def example_penalties example_diffsq)
  show "\<not> (\<exists>c>0. snd (gLST_costfun lib example_L1 example_T1 example_heap [1] [1] [1]
                          [1/2] [1/2] [1, 2, 1, 1]) = Inr (29/25 + c * 1))"
    by (simp add: gLST_costfun_def example_penalties example_diffsq)
qed

section \<open>Additive models, the cost of fit_model, and what a call changes\<close>

lemma then_do_eq_Inr: "then_do m k = Inr y \<longleftrightarrow> (\<exists>x. m = Inr x \<and> k x = Inr y)"
  by (cases m) simp_all

lemma elementwise_length: "elementwise g xs = Inr ys \<Longrightarrow> length ys = length xs"
  by (induction xs arbitrary: ys) (auto simp: then_do_eq_Inr)

lemma np_add_same_length:
  "length xs = length ys \<Longrightarrow> np_add xs ys = Inr (map (\<lambda>(x, y). x + y) (zip xs ys))"
  by (simp add: np_add_def broadcast_def)

lemma elementwise_sum_Nil: "elementwise_sum n [] = replicate n 0"
  by (simp add: elementwise_sum_def map_replicate_const)

lemma elementwise_sum_Cons:
  "length r = n \<Longrightarrow>
   elementwise_sum n (r # rs) = map (\<lambda>(x, y). x + y) (zip r (elementwise_sum n rs))"
  by (rule nth_equalityI) (simp_all add: elementwise_sum_def)

lemma length_elementwise_sum [simp]: "length (elementwise_sum n parts) = n"
  by (simp add: elementwise_sum_def)

lemma zip_add_assoc:
  "length a = n \<Longrightarrow> length b = n \<Longrightarrow> length c = n \<Longrightarrow>
   map (\<lambda>(x, y). x + y) (zip (map (\<lambda>(x, y). x + y) (zip a b)) c)
     = map (\<lambda>(x, y). x + y) (zip a (map (\<lambda>(x, y). x + (y::real)) (zip b c)))"
  by (rule nth_equalityI) simp_all

lemma call_loop_sum:
  assumes "\<forall>l\<in>set ls. \<exists>rpPart cpPart. snd (lineshape_call lib h l w) = Inr (rpPart, cpPart)
             \<and> length rpPart = n \<and> length cpPart = n"
    and "length rp = n" "length cp = n"
  shows "snd (call_loop lib h ls w (rp, cp))
           = Inr (map (\<lambda>(x, y). x + y) (zip rp (elementwise_sum n (map (returned_rp lib h w) ls))),
                  map (\<lambda>(x, y). x + y) (zip cp (elementwise_sum n (map (returned_cp lib h w) ls))))"
  using assms
proof (induction ls arbitrary: rp cp)
  case Nil
  then show ?case
    by (simp add: elementwise_sum_Nil) (intro conjI nth_equalityI; simp)
next
  case (Cons l ls)
  from Cons.prems(1) obtain rpPart cpPart where
    c: "snd (lineshape_call lib h l w) = Inr (rpPart, cpPart)"
       "length rpPart = n" "length cpPart = n"
    by auto
  then obtain l' where l': "lineshape_call lib h l w = (l', Inr (rpPart, cpPart))"
    by (cases "lineshape_call lib h l w") simp
  have rr: "returned_rp lib h w l = rpPart" and rc: "returned_cp lib h w l = cpPart"
    using c(1) by (simp_all add: returned_rp_def returned_cp_def)
  let ?rp = "map (\<lambda>(x, y). x + y) (zip rp rpPart)"
  let ?cp = "map (\<lambda>(x, y). x + y) (zip cp cpPart)"
  have a1: "np_add rp rpPart = Inr ?rp" and a2: "np_add cp cpPart = Inr ?cp"
    using Cons.prems(2,3) c(2,3) by (simp_all add: np_add_same_length)
  have rest: "\<forall>l\<in>set ls. \<exists>rpPart cpPart. snd (lineshape_call lib h l w) = Inr (rpPart, cpPart)
             \<and> length rpPart = n \<and> length cpPart = n"
    using Cons.prems(1) by simp
  have ih: "snd (call_loop lib h ls w (?rp, ?cp))
           = Inr (map (\<lambda>(x, y). x + y) (zip ?rp (elementwise_sum n (map (returned_rp lib h w) ls))),
                  map (\<lambda>(x, y). x + y) (zip ?cp (elementwise_sum n (map (returned_cp lib h w) ls))))"
    by (rule Cons.IH[OF rest]) (simp_all add: Cons.prems c)
  have step: "snd (call_loop lib h (l # ls) w (rp, cp)) = snd (call_loop lib h ls w (?rp, ?cp))"
    by (simp add: l' a1 a2 split: prod.splits)
  show ?case
    unfolding step ih
    by (simp add: rr rc elementwise_sum_Cons[OF c(2)] elementwise_sum_Cons[OF c(3)]
        zip_add_assoc[OF Cons.prems(2) c(2)] zip_add_assoc[OF Cons.prems(3) c(3)])
qed

lemma Debye_call_length:
  "snd (Debye_call h l w) = Inr (rp, cp) \<Longrightarrow> length rp = length w \<and> length cp = length w"
  by (auto simp: Debye_call_def then_do_eq_Inr dest!: elementwise_length)

lemma DHO_call_length:
  "snd (DHO_call h l w) = Inr (rp, cp) \<Longrightarrow> length rp = length w \<and> length cp = length w"
  by (auto simp: DHO_call_def then_do_eq_Inr dest!: elementwise_length)

lemma ColeCole_call_length:
  "snd (ColeCole_call h l w) = Inr (rp, cp) \<Longrightarrow> length rp = length w \<and> length cp = length w"
  by (auto simp: ColeCole_call_def then_do_eq_Inr dest!: elementwise_length)

lemma PowerLawDebye_call_length:
  "snd (PowerLawDebye_call h l w) = Inr (rp, cp) \<Longrightarrow> length rp = length w \<and> length cp = length w"
  by (auto simp: PowerLawDebye_call_def then_do_eq_Inr dest!: elementwise_length)

lemma constant_call_length:
  "snd (constant_call h l w) = Inr (rp, cp) \<Longrightarrow> length rp = length w \<and> length cp = length w"
  by (auto simp: constant_call_def then_do_eq_Inr)

lemma VanVleck_call_never: "snd (VanVleck_call h l w) \<noteq> Inr r"
  by (simp add: VanVleck_call_def call_number_def then_do_def split: sum.splits)

lemma Gaussian_call_never: "snd (Gaussian_call h l w) \<noteq> Inr r"
  by (simp add: Gaussian_call_def call_number_def then_do_def split: sum.splits)

lemma BrendelDHO_eps_length:
  "BrendelDHO_eps e ps w = Inr eps \<Longrightarrow> length eps = length w"
  by (auto simp: BrendelDHO_eps_def then_do_eq_Inr)

lemma BrendelDHO_call_length:
  "snd (BrendelDHO_call e h l w) = Inr (rp, cp) \<Longrightarrow> length rp = length w \<and> length cp = length w"
  by (auto simp: BrendelDHO_call_def then_do_eq_Inr split: sum.splits
      dest!: BrendelDHO_eps_length elementwise_length)

lemma lineshape_call_length:
  assumes "cls l \<noteq> StretchedExp" "snd (lineshape_call lib h l w) = Inr (rp, cp)"
  shows "length rp = length w \<and> length cp = length w"
proof (cases "cls l")
  case Debye then show ?thesis using assms Debye_call_length by (simp add: lineshape_call_def)
next
  case DHO then show ?thesis using assms DHO_call_length by (simp add: lineshape_call_def)
next
  case BrendelDHO then show ?thesis using assms BrendelDHO_call_length by (simp add: lineshape_call_def)
next
  case DistributionOfDebye then show ?thesis using assms by (simp add: lineshape_call_def)
next
  case StretchedExp then show ?thesis using assms by simp
next
  case PowerLawDebye then show ?thesis using assms PowerLawDebye_call_length by (simp add: lineshape_call_def)
next
  case ColeCole then show ?thesis using assms ColeCole_call_length by (simp add: lineshape_call_def)
next
  case VanVleck then show ?thesis using assms VanVleck_call_never by (simp add: lineshape_call_def)
next
  case Gaussian then show ?thesis using assms Gaussian_call_never by (simp add: lineshape_call_def)
next
  case Constant then show ?thesis using assms constant_call_length by (simp add: lineshape_call_def)
qed

text \<open>
  Claim C2. When every lineshape of a model returns a pair at \<open>w\<close>, calling the model
  on \<open>w\<close> returns the pair of the elementwise sums of the real and of the imaginary
  parts the lineshapes return. The parts have the length of \<open>w\<close> for every class; for
  StretchedExp they are what numpy's \<open>interp\<close> returns, a parameter here, and their
  length is assumed. The count \<open>numlineshapes\<close> plays no part: the call iterates over
  \<open>lineshapes\<close>.
\<close>

theorem SpectralModel_call_additive:
  assumes "\<forall>l\<in>set (lineshapes M). \<exists>rpPart cpPart.
             snd (lineshape_call lib h l w) = Inr (rpPart, cpPart)
             \<and> (cls l = StretchedExp \<longrightarrow> length rpPart = length w \<and> length cpPart = length w)"
  shows "snd (SpectralModel_call lib h M w)
           = Inr (elementwise_sum (length w) (map (returned_rp lib h w) (lineshapes M)),
                  elementwise_sum (length w) (map (returned_cp lib h w) (lineshapes M)))"
proof -
  have all: "\<forall>l\<in>set (lineshapes M). \<exists>rpPart cpPart.
               snd (lineshape_call lib h l w) = Inr (rpPart, cpPart)
               \<and> length rpPart = length w \<and> length cpPart = length w"
  proof
    fix l assume "l \<in> set (lineshapes M)"
    with assms obtain rpPart cpPart where
      r: "snd (lineshape_call lib h l w) = Inr (rpPart, cpPart)"
         "cls l = StretchedExp \<longrightarrow> length rpPart = length w \<and> length cpPart = length w"
      by auto
    have "length rpPart = length w \<and> length cpPart = length w"
    proof (cases "cls l = StretchedExp")
      case True then show ?thesis using r(2) by simp
    next
      case False then show ?thesis using r(1) by (rule lineshape_call_length)
    qed
    with r(1) show "\<exists>rpPart cpPart. snd (lineshape_call lib h l w) = Inr (rpPart, cpPart)
               \<and> length rpPart = length w \<and> length cpPart = length w"
      by blast
  qed
  have z: "map (\<lambda>(x, y). x + y) (zip (np_zeros (length w)) xs) = xs"
    if "length xs = length w" for xs :: "real list"
    using that by (intro nth_equalityI) (simp_all add: np_zeros_def)
  have "snd (call_loop lib h (lineshapes M) w (np_zeros (length w), np_zeros (length w)))
          = Inr (elementwise_sum (length w) (map (returned_rp lib h w) (lineshapes M)),
                 elementwise_sum (length w) (map (returned_cp lib h w) (lineshapes M)))"
    using call_loop_sum[OF all, of "np_zeros (length w)" "np_zeros (length w)"]
    by (simp add: z) (simp add: np_zeros_def)
  then show ?thesis
    by (cases "call_loop lib h (lineshapes M) w (np_zeros (length w), np_zeros (length w))")
       (simp add: SpectralModel_call_def)
qed

lemma example_lineshape_calls:
  "snd (lineshape_call lib example_heap (Debye_init 10 [unbounded, unbounded] ''Debye'') [1])
     = Inr ([4/5], [2/5])"
  "snd (lineshape_call lib example_heap (constant_init 12 [(Fin 0, Fin 10000)] ''eps'') [1])
     = Inr ([1], [0])"
  by (simp_all add: lineshape_call_def Debye_call_def constant_call_def example_defs np_div_def
      power2_eq_square)

text \<open>
  The theorem at the example model of a Debye lineshape and a constant term, at the
  frequency 1: the parts are \<open>([4/5], [2/5])\<close> and \<open>([1], [0])\<close>.
\<close>

theorem SpectralModel_call_additive_witness:
  "\<forall>lib.
     snd (lineshape_call lib example_heap (lineshapes example_L2 ! 0) [1]) = Inr ([4/5], [2/5])
   \<and> snd (lineshape_call lib example_heap (lineshapes example_L2 ! 1) [1]) = Inr ([1], [0])
   \<and> cls (lineshapes example_L2 ! 0) = Debye \<and> cls (lineshapes example_L2 ! 1) = Constant
   \<and> length (lineshapes example_L2) = 2
   \<and> snd (SpectralModel_call lib example_heap example_L2 [1]) = Inr ([9/5], [2/5])"
proof
  fix lib
  have ls: "lineshapes example_L2 =
      [Debye_init 10 [unbounded, unbounded] ''Debye'', constant_init 12 [(Fin 0, Fin 10000)] ''eps'']"
    by (simp add: example_L2_def example_L1_def add_def SpectralModel_init_def)
  have c: "cls (Debye_init 10 [unbounded, unbounded] ''Debye'') = Debye"
          "cls (constant_init 12 [(Fin 0, Fin 10000)] ''eps'') = Constant"
    by (simp_all add: Debye_init_def constant_init_def Lineshape_init_def)
  have hyp: "\<forall>l\<in>set (lineshapes example_L2). \<exists>rpPart cpPart.
             snd (lineshape_call lib example_heap l [1]) = Inr (rpPart, cpPart)
             \<and> (cls l = StretchedExp \<longrightarrow> length rpPart = length [1::real] \<and> length cpPart = length [1::real])"
    by (simp add: ls example_lineshape_calls)
  have "snd (SpectralModel_call lib example_heap example_L2 [1]) = Inr ([9/5], [2/5])"
    using SpectralModel_call_additive[OF hyp]
    by (simp add: ls elementwise_sum_def returned_rp_def returned_cp_def example_lineshape_calls)
  then show "snd (lineshape_call lib example_heap (lineshapes example_L2 ! 0) [1]) = Inr ([4/5], [2/5])
   \<and> snd (lineshape_call lib example_heap (lineshapes example_L2 ! 1) [1]) = Inr ([1], [0])
   \<and> cls (lineshapes example_L2 ! 0) = Debye \<and> cls (lineshapes example_L2 ! 1) = Constant
   \<and> length (lineshapes example_L2) = 2
   \<and> snd (SpectralModel_call lib example_heap example_L2 [1]) = Inr ([9/5], [2/5])"
    by (simp add: ls example_lineshape_calls c)
qed

lemma elementwise_total:
  "\<forall>x\<in>set xs. g x = Inr (k x) \<Longrightarrow> elementwise g xs = Inr (map k xs)"
  by (induction xs) simp_all

lemma relative_residual:
  assumes "length data = length model" "0 \<notin> set data"
  shows "then_do (np_sub data model) (\<lambda>d. np_divide d data)
           = Inr (map (\<lambda>(d, m). (d - m) / d) (zip data model))"
proof -
  have s: "np_sub data model = Inr (map (\<lambda>(x, y). x - y) (zip data model))"
    using assms(1) by (simp add: np_sub_def broadcast_def)
  let ?d = "map (\<lambda>(x, y). x - y) (zip data model)"
  have "\<forall>x\<in>set (zip ?d data). (\<lambda>(x, y). np_div x y) x = Inr ((\<lambda>(x, y). x / y) x)"
    using assms(2) by (auto simp: np_div_def dest: set_zip_rightD)
  then have e: "elementwise (\<lambda>(x, y). np_div x y) (zip ?d data)
                  = Inr (map (\<lambda>(x, y). x / y) (zip ?d data))"
    by (rule elementwise_total)
  have "np_divide ?d data = Inr (map (\<lambda>(x, y). x / y) (zip ?d data))"
    using assms(1) e by (simp add: np_divide_def broadcast_def)
  moreover have "map (\<lambda>(x, y). x / y) (zip ?d data) = map (\<lambda>(d, m). (d - m) / d) (zip data model)"
    using assms(1) by (intro nth_equalityI) simp_all
  ultimately show ?thesis using s by simp
qed

lemma np_dot_self: "np_dot xs xs = Inr (sum_list (map (\<lambda>x. x\<^sup>2) xs))"
proof -
  have "map (\<lambda>(x, y). x * y) (zip xs xs) = map (\<lambda>x. x\<^sup>2) xs"
    by (intro nth_equalityI) (simp_all add: power2_eq_square)
  then show ?thesis by (simp add: np_dot_def)
qed

lemma sum_sq_residuals:
  "sum_list (map (\<lambda>x. x\<^sup>2) (map (\<lambda>(d, m). (d - m) / d) (zip data model)))
     = squared_relative_residuals data model"
  by (simp add: squared_relative_residuals_def comp_def case_prod_unfold)

lemma fsum_loop_sum:
  "\<forall>i\<in>set is. i < length (lineshapes M) \<and> h (p (lineshapes M ! i)) \<noteq> [] \<Longrightarrow>
   fsum_loop M h is acc = Inr (acc + sum_list (map (\<lambda>i. h (p (lineshapes M ! i)) ! 0) is))"
proof (induction "is" arbitrary: acc)
  case Nil
  then show ?case by simp
next
  case (Cons i "is")
  then have i: "i < length (lineshapes M)" "0 < length (h (p (lineshapes M ! i)))" by simp_all
  show ?case using Cons i by (simp add: getitem_nth add.assoc)
qed

lemma fsum_p0_sum:
  assumes "numlineshapes M = length (lineshapes M)" "\<forall>l\<in>set (lineshapes M). h (p l) \<noteq> []"
  shows "fsum M h = Inr (p0_sum h (lineshapes M))"
proof -
  have "\<forall>i\<in>set [0..<length (lineshapes M)].
          i < length (lineshapes M) \<and> h (p (lineshapes M ! i)) \<noteq> []"
    using assms(2) by simp
  from fsum_loop_sum[OF this, of 0]
  have "fsum M h = Inr (sum_list (map (\<lambda>i. h (p (lineshapes M ! i)) ! 0) [0..<length (lineshapes M)]))"
    using assms(1) by (simp add: fsum_def)
  moreover have "map (\<lambda>i. h (p (lineshapes M ! i)) ! 0) [0..<length (lineshapes M)]
                   = map (\<lambda>l. h (p l) ! 0) (lineshapes M)"
    by (intro nth_equalityI) simp_all
  ultimately show ?thesis by (simp add: p0_sum_def)
qed

lemma BrendelDHO_call_frame: "\<exists>v. fst (BrendelDHO_call e h l w) = l\<lparr>f := v\<rparr>"
proof (cases "BrendelDHO_eps e (h (p l)) w")
  case (Inl a)
  then have "fst (BrendelDHO_call e h l w) = l\<lparr>f := f l\<rparr>" by (simp add: BrendelDHO_call_def)
  then show ?thesis by blast
next
  case (Inr eps)
  show ?thesis
  proof (cases "getitem eps 1")
    case (Inl a)
    then have "fst (BrendelDHO_call e h l w) = l\<lparr>f := f l\<rparr>"
      using Inr by (simp add: BrendelDHO_call_def)
    then show ?thesis by blast
  next
    case r: (Inr v)
    then have "fst (BrendelDHO_call e h l w) = l\<lparr>f := Some (np_real v)\<rparr>"
      using Inr by (simp add: BrendelDHO_call_def)
    then show ?thesis by blast
  qed
qed

lemma lineshape_call_other: "cls l \<noteq> BrendelDHO \<Longrightarrow> fst (lineshape_call lib h l w) = l"
  by (cases "cls l")
     (simp_all add: lineshape_call_def Debye_call_def DHO_call_def StretchedExp_call_def
        PowerLawDebye_call_def ColeCole_call_def VanVleck_call_def Gaussian_call_def
        constant_call_def)

lemma lineshape_call_frame: "\<exists>v. fst (lineshape_call lib h l w) = l\<lparr>f := v\<rparr>"
proof (cases "cls l = BrendelDHO")
  case True
  then show ?thesis using BrendelDHO_call_frame by (simp add: lineshape_call_def)
next
  case False
  then have "fst (lineshape_call lib h l w) = l\<lparr>f := f l\<rparr>"
    by (simp add: lineshape_call_other)
  then show ?thesis by blast
qed

lemma lineshape_call_p [simp]: "p (fst (lineshape_call lib h l w)) = p l"
proof -
  from lineshape_call_frame obtain v where "fst (lineshape_call lib h l w) = l\<lparr>f := v\<rparr>"
    by blast
  then show ?thesis by simp
qed

lemma getitem_Inr_nonempty: "getitem xs i = Inr x \<Longrightarrow> xs \<noteq> []"
  by (auto simp: getitem_def)

lemma lineshape_call_reads_params:
  assumes "snd (lineshape_call lib h l w) = Inr r"
  shows "h (p l) \<noteq> []"
proof (cases "cls l")
  case Debye then show ?thesis using assms
    by (auto simp: lineshape_call_def Debye_call_def then_do_eq_Inr dest: getitem_Inr_nonempty)
next
  case DHO then show ?thesis using assms
    by (auto simp: lineshape_call_def DHO_call_def then_do_eq_Inr dest: getitem_Inr_nonempty)
next
  case BrendelDHO
  then have "\<exists>eps. BrendelDHO_eps (erfcx lib) (h (p l)) w = Inr eps" using assms
    by (auto simp: lineshape_call_def BrendelDHO_call_def split: sum.splits)
  then show ?thesis
    by (auto simp: BrendelDHO_eps_def then_do_eq_Inr dest: getitem_Inr_nonempty)
next
  case DistributionOfDebye then show ?thesis using assms by (simp add: lineshape_call_def)
next
  case StretchedExp then show ?thesis using assms
    by (auto simp: lineshape_call_def StretchedExp_call_def calc_eps_def then_do_eq_Inr
        dest: getitem_Inr_nonempty)
next
  case PowerLawDebye then show ?thesis using assms
    by (auto simp: lineshape_call_def PowerLawDebye_call_def then_do_eq_Inr
        dest: getitem_Inr_nonempty)
next
  case ColeCole then show ?thesis using assms
    by (auto simp: lineshape_call_def ColeCole_call_def then_do_eq_Inr dest: getitem_Inr_nonempty)
next
  case VanVleck then show ?thesis using assms VanVleck_call_never
    by (simp add: lineshape_call_def)
next
  case Gaussian then show ?thesis using assms Gaussian_call_never
    by (simp add: lineshape_call_def)
next
  case Constant then show ?thesis using assms
    by (auto simp: lineshape_call_def constant_call_def then_do_eq_Inr dest: getitem_Inr_nonempty)
qed

lemma call_loop_p: "map p (fst (call_loop lib h ls w acc)) = map p ls"
proof (induction ls arbitrary: acc)
  case Nil
  then show ?case by (cases acc) simp
next
  case (Cons l ls)
  obtain rp cp where acc: "acc = (rp, cp)" by (cases acc)
  obtain l' r where c: "lineshape_call lib h l w = (l', r)" by (cases "lineshape_call lib h l w")
  have pl: "p l' = p l" using lineshape_call_p[of lib h l w] c by simp
  show ?case
  proof (cases r)
    case (Inl e)
    then show ?thesis using acc c pl by simp
  next
    case (Inr s)
    obtain rpPart cpPart where s: "s = (rpPart, cpPart)" by (cases s)
    show ?thesis
    proof (cases "np_add rp rpPart")
      case (Inl e)
      then show ?thesis using acc c pl Inr s by simp
    next
      case a1: (Inr rp')
      show ?thesis
      proof (cases "np_add cp cpPart")
        case (Inl e)
        then show ?thesis using acc c pl Inr s a1 by simp
      next
        case a2: (Inr cp')
        obtain rest' r' where rec: "call_loop lib h ls w (rp', cp') = (rest', r')"
          by (cases "call_loop lib h ls w (rp', cp')")
        have "map p rest' = map p ls" using Cons.IH[of "(rp', cp')"] rec by simp
        then show ?thesis using acc c pl Inr s a1 a2 rec by simp
      qed
    qed
  qed
qed

lemma call_loop_each_returns:
  "snd (call_loop lib h ls w acc) = Inr res \<Longrightarrow>
   \<forall>l\<in>set ls. \<exists>r. snd (lineshape_call lib h l w) = Inr r"
proof (induction ls arbitrary: acc)
  case Nil
  then show ?case by simp
next
  case (Cons l ls)
  obtain rp cp where acc: "acc = (rp, cp)" by (cases acc)
  obtain l' r where c: "lineshape_call lib h l w = (l', r)" by (cases "lineshape_call lib h l w")
  show ?case
  proof (cases r)
    case (Inl e)
    then show ?thesis using Cons.prems acc c by simp
  next
    case (Inr s)
    obtain rpPart cpPart where s: "s = (rpPart, cpPart)" by (cases s)
    show ?thesis
    proof (cases "np_add rp rpPart")
      case (Inl e)
      then show ?thesis using Cons.prems acc c Inr s by simp
    next
      case a1: (Inr rp')
      show ?thesis
      proof (cases "np_add cp cpPart")
        case (Inl e)
        then show ?thesis using Cons.prems acc c Inr s a1 by simp
      next
        case a2: (Inr cp')
        obtain rest' r' where rec: "call_loop lib h ls w (rp', cp') = (rest', r')"
          by (cases "call_loop lib h ls w (rp', cp')")
        have "r' = Inr res" using Cons.prems acc c Inr s a1 a2 rec by simp
        then have "\<forall>l\<in>set ls. \<exists>r. snd (lineshape_call lib h l w) = Inr r"
          using Cons.IH[of "(rp', cp')"] rec by simp
        moreover have "snd (lineshape_call lib h l w) = Inr s" using c Inr by simp
        ultimately show ?thesis by auto
      qed
    qed
  qed
qed

lemma SpectralModel_call_fsum:
  assumes "SpectralModel_call lib h M w = (M', Inr res)"
    and "numlineshapes M = length (lineshapes M)"
  shows "fsum M' h = Inr (p0_sum h (lineshapes M))"
proof -
  obtain ls' r where cl:
    "call_loop lib h (lineshapes M) w (np_zeros (length w), np_zeros (length w)) = (ls', r)"
    by (cases "call_loop lib h (lineshapes M) w (np_zeros (length w), np_zeros (length w))")
  then have M': "M' = M\<lparr>lineshapes := ls'\<rparr>" and r: "r = Inr res"
    using assms(1) by (simp_all add: SpectralModel_call_def)
  have mp: "map p ls' = map p (lineshapes M)"
    using call_loop_p[of lib h "lineshapes M" w "(np_zeros (length w), np_zeros (length w))"] cl
    by simp
  then have len: "length ls' = length (lineshapes M)" by (metis length_map)
  have "\<forall>l\<in>set (lineshapes M). \<exists>r. snd (lineshape_call lib h l w) = Inr r"
    using call_loop_each_returns
      [of lib h "lineshapes M" w "(np_zeros (length w), np_zeros (length w))" res] cl r
    by simp
  then have ne: "\<forall>l\<in>set (lineshapes M). h (p l) \<noteq> []"
    using lineshape_call_reads_params by blast
  have "\<forall>a\<in>set (map p (lineshapes M)). h a \<noteq> []" using ne by simp
  then have "\<forall>a\<in>set (map p ls'). h a \<noteq> []" using mp by simp
  then have ne': "\<forall>l\<in>set (lineshapes M'). h (p l) \<noteq> []" using M' by simp
  have n': "numlineshapes M' = length (lineshapes M')" using M' len assms(2) by simp
  have "fsum M' h = Inr (p0_sum h (lineshapes M'))" by (rule fsum_p0_sum[OF n' ne'])
  moreover have "p0_sum h (lineshapes M') = p0_sum h (lineshapes M)"
  proof -
    have e: "p0_sum h ls = sum_list (map (\<lambda>a. h a ! 0) (map p ls))" for ls :: "lineshape list"
      by (simp add: p0_sum_def comp_def)
    have "p0_sum h ls' = p0_sum h (lineshapes M)" unfolding e mp ..
    then show ?thesis using M' by simp
  qed
  ultimately show ?thesis by simp
qed

lemma np_dot_residual:
  "np_dot (map (\<lambda>(d, m). (d - m) / d) (zip data model))
          (map (\<lambda>(d, m). (d - m) / d) (zip data model))
     = Inr (squared_relative_residuals data model)"
  unfolding np_dot_self sum_sq_residuals ..

text \<open>
  Claim C3, amended. For a model whose \<open>numlineshapes\<close> is the length of
  \<open>lineshapes\<close>: when \<open>setparams(params)\<close> raises nothing, the model evaluated at
  \<open>dataX\<close> returns \<open>(rp, cp)\<close>, the data arrays have the lengths of \<open>rp\<close> and \<open>cp\<close>
  and hold no zero, the cost function of \<open>fit_model\<close> returns the sum of the squared
  relative residuals of the real and the imaginary part plus
  \<open>100 * ((datarp[0] - fsum)/datarp[0])^2\<close>, where \<open>fsum\<close> is the sum of \<open>p[0]\<close> over
  all lineshapes, read after \<open>setparams\<close>.
\<close>

theorem fit_model_costfun_value:
  assumes "numlineshapes self = length (lineshapes self)"
    and "setparams self params h = (h', Inr ())"
    and "SpectralModel_call lib h' self dataX = (self', Inr (rp, cp))"
    and "length datarp = length rp" and "length datacp = length cp"
    and "datarp \<noteq> []" and "0 \<notin> set datarp" and "0 \<notin> set datacp"
  shows "snd (fit_model_costfun lib self h dataX datarp datacp params)
           = Inr (claimed_cost datarp datacp rp cp (p0_sum h' (lineshapes self)))"
proof -
  have rr: "then_do (np_sub datarp rp) (\<lambda>d. np_divide d datarp)
              = Inr (map (\<lambda>(d, m). (d - m) / d) (zip datarp rp))"
    by (rule relative_residual[OF assms(4,7)])
  have rc: "then_do (np_sub datacp cp) (\<lambda>d. np_divide d datacp)
              = Inr (map (\<lambda>(d, m). (d - m) / d) (zip datacp cp))"
    by (rule relative_residual[OF assms(5,8)])
  obtain d1 where d1: "np_sub datarp rp = Inr d1"
    "np_divide d1 datarp = Inr (map (\<lambda>(d, m). (d - m) / d) (zip datarp rp))"
    using rr by (auto simp: then_do_eq_Inr)
  obtain d2 where d2: "np_sub datacp cp = Inr d2"
    "np_divide d2 datacp = Inr (map (\<lambda>(d, m). (d - m) / d) (zip datacp cp))"
    using rc by (auto simp: then_do_eq_Inr)
  have ds: "fit_model_diffsq lib self h dataX datarp datacp params
          = ((self', h'), Inr (squared_relative_residuals datacp cp
                               + squared_relative_residuals datarp rp))"
    by (simp add: fit_model_diffsq_def assms(2,3) d1 d2 np_dot_residual)
  have fs: "fsum self' h' = Inr (p0_sum h' (lineshapes self))"
    by (rule SpectralModel_call_fsum[OF assms(3,1)])
  have g0: "getitem datarp 0 = Inr (datarp ! 0)" using assms(6) by (simp add: getitem_def)
  have nz: "datarp ! 0 \<noteq> 0" using assms(6,7) by (metis length_greater_0_conv nth_mem)
  show ?thesis
    by (simp add: fit_model_costfun_def ds fs g0 nz np_div_def claimed_cost_def)
qed

lemma example_setparams_31:
  "setparams example_L1 [3, 1] example_heap = (example_heap(10 := [3, 1]), Inr ())"
  "setparams (SpectralModel_init [Debye_init 10 [unbounded, unbounded] ''Debye'']) [3, 1] example_heap
     = (example_heap(10 := [3, 1]), Inr ())"
  by (simp_all add: setparams_def example_defs upt_rec)

lemma example_call_31:
  "SpectralModel_call lib (example_heap(10 := [3, 1])) example_L1 [1]
     = (example_L1, Inr ([3/2], [3/2]))"
  "SpectralModel_call lib (example_heap(10 := [3, 1]))
       (SpectralModel_init [Debye_init 10 [unbounded, unbounded] ''Debye'']) [1]
     = (SpectralModel_init [Debye_init 10 [unbounded, unbounded] ''Debye''], Inr ([3/2], [3/2]))"
  by (simp_all add: SpectralModel_call_def lineshape_call_def Debye_call_def example_defs np_defs
      power2_eq_square)

text \<open>
  The theorem at the example model of one Debye lineshape, with \<open>params = [3, 1]\<close> and
  the data \<open>dataX = [1]\<close>, \<open>datarp = [1]\<close>, \<open>datacp = [1]\<close>: the residuals give
  \<open>1/2\<close>, the penalty 400.
\<close>

theorem fit_model_costfun_value_witness:
  "\<forall>lib.
     numlineshapes example_L1 = length (lineshapes example_L1)
   \<and> setparams example_L1 [3, 1] example_heap = (example_heap(10 := [3, 1]), Inr ())
   \<and> SpectralModel_call lib (example_heap(10 := [3, 1])) example_L1 [1]
       = (example_L1, Inr ([3/2], [3/2]))
   \<and> p0_sum (example_heap(10 := [3, 1])) (lineshapes example_L1) = 3
   \<and> claimed_cost [1] [1] [3/2] [3/2] 3 = 801/2
   \<and> snd (fit_model_costfun lib example_L1 example_heap [1] [1] [1] [3, 1]) = Inr (801/2)"
proof
  fix lib
  have n: "numlineshapes example_L1 = length (lineshapes example_L1)"
    by (simp add: example_defs)
  have s: "p0_sum (example_heap(10 := [3, 1])) (lineshapes example_L1) = 3"
    by (simp add: p0_sum_def example_defs)
  have c: "claimed_cost [1] [1] [3/2] [3/2] 3 = 801/2"
    by (simp add: claimed_cost_def squared_relative_residuals_def power2_eq_square)
  have "snd (fit_model_costfun lib example_L1 example_heap [1] [1] [1] [3, 1]) = Inr (801/2)"
    using fit_model_costfun_value[where datarp = "[1]" and datacp = "[1]",
        OF n example_setparams_31(1) example_call_31(1)] s c
    by simp
  then show "numlineshapes example_L1 = length (lineshapes example_L1)
   \<and> setparams example_L1 [3, 1] example_heap = (example_heap(10 := [3, 1]), Inr ())
   \<and> SpectralModel_call lib (example_heap(10 := [3, 1])) example_L1 [1]
       = (example_L1, Inr ([3/2], [3/2]))
   \<and> p0_sum (example_heap(10 := [3, 1])) (lineshapes example_L1) = 3
   \<and> claimed_cost [1] [1] [3/2] [3/2] 3 = 801/2
   \<and> snd (fit_model_costfun lib example_L1 example_heap [1] [1] [1] [3, 1]) = Inr (801/2)"
    using n s c example_setparams_31(1) example_call_31(1) by simp
qed

text \<open>
  Claim C3 as stated fails for a model given its lineshape through the constructor:
  \<open>numlineshapes\<close> is 0, \<open>fsum()\<close> returns 0 while \<open>p[0]\<close> sums to 3, and the cost
  is \<open>201/2\<close> where the claim's formula gives \<open>801/2\<close>.
\<close>

theorem fit_model_costfun_constructor_list:
  "\<forall>lib.
     lineshapes (SpectralModel_init [Debye_init 10 [unbounded, unbounded] ''Debye''])
       = [Debye_init 10 [unbounded, unbounded] ''Debye'']
   \<and> numlineshapes (SpectralModel_init [Debye_init 10 [unbounded, unbounded] ''Debye'']) = 0
   \<and> fsum (SpectralModel_init [Debye_init 10 [unbounded, unbounded] ''Debye''])
         (example_heap(10 := [3, 1])) = Inr 0
   \<and> p0_sum (example_heap(10 := [3, 1])) [Debye_init 10 [unbounded, unbounded] ''Debye''] = 3
   \<and> snd (fit_model_costfun lib
              (SpectralModel_init [Debye_init 10 [unbounded, unbounded] ''Debye''])
              example_heap [1] [1] [1] [3, 1]) = Inr (201/2)
   \<and> claimed_cost [1] [1] [3/2] [3/2] 3 = 801/2"
proof (intro allI conjI)
  fix lib
  let ?M = "SpectralModel_init [Debye_init 10 [unbounded, unbounded] ''Debye'']"
  show "lineshapes ?M = [Debye_init 10 [unbounded, unbounded] ''Debye'']"
    and "numlineshapes ?M = 0"
    by (simp_all add: SpectralModel_init_def)
  show f0: "fsum ?M (example_heap(10 := [3, 1])) = Inr 0"
    by (simp add: fsum_def SpectralModel_init_def)
  show "p0_sum (example_heap(10 := [3, 1])) [Debye_init 10 [unbounded, unbounded] ''Debye''] = 3"
    by (simp add: p0_sum_def Debye_init_def Lineshape_init_def)
  have "fit_model_diffsq lib ?M example_heap [1] [1] [1] [3, 1]
          = ((?M, example_heap(10 := [3, 1])), Inr (1/2))"
    by (simp add: fit_model_diffsq_def example_setparams_31 example_call_31 np_defs
        power2_eq_square)
  then show "snd (fit_model_costfun lib ?M example_heap [1] [1] [1] [3, 1]) = Inr (201/2)"
    by (simp add: fit_model_costfun_def f0 np_div_def)
  show "claimed_cost [1] [1] [3/2] [3/2] 3 = 801/2"
    by (simp add: claimed_cost_def squared_relative_residuals_def power2_eq_square)
qed

lemma erf_series_0: "erf_series 0 = 0"
  by (simp add: erf_series_def)

lemma erf_term:
  "(- 1) ^ n * (- 2 * \<i>) ^ (2 * n + 1) / (fact n * of_nat (2 * n + 1))
     = - \<i> * complex_of_real (2 * 4 ^ n / (fact n * real (2 * n + 1)))"
proof -
  have "(- 2 * \<i>) ^ (2 * n) = ((- 2 * \<i>)\<^sup>2) ^ n" by (simp add: power_mult)
  also have "(- 2 * \<i>)\<^sup>2 = - 4" by (simp add: power2_eq_square)
  finally have "(- 1) ^ n * (- 2 * \<i>) ^ (2 * n) = (4::complex) ^ n"
    by (simp add: power_mult_distrib[symmetric])
  then have "(- 1) ^ n * (- 2 * \<i>) ^ (2 * n + 1) = - \<i> * (2 * 4 ^ n)"
    by (simp add: algebra_simps)
  then show ?thesis by simp
qed

lemma erf_real_summable: "summable (\<lambda>n. 2 * 4 ^ n / (fact n * real (2 * n + 1)))"
proof (rule summable_comparison_test')
  show "summable (\<lambda>n. 2 * (inverse (fact n) * (4::real) ^ n))"
    by (intro summable_mult summable_exp)
  show "norm (2 * 4 ^ n / (fact n * real (2 * n + 1))) \<le> 2 * (inverse (fact n) * 4 ^ n)"
    if "n \<ge> 0" for n :: nat
  proof -
    have "2 * 4 ^ n / (fact n * real (2 * n + 1)) \<le> 2 * 4 ^ n / (fact n * 1)"
      by (intro divide_left_mono mult_left_mono) simp_all
    then show ?thesis by (simp add: field_simps)
  qed
qed

lemma erf_series_imaginary:
  "\<exists>s>0. erf_series (- 2 * \<i>) = - \<i> * complex_of_real s"
proof -
  let ?r = "\<lambda>n. 2 * 4 ^ n / (fact n * real (2 * n + 1))"
  have pos: "0 < suminf ?r"
    by (rule suminf_pos[OF erf_real_summable]) simp
  have "(\<lambda>n. complex_of_real (?r n)) sums complex_of_real (suminf ?r)"
    by (rule sums_of_real[OF summable_sums[OF erf_real_summable]])
  then have "(\<lambda>n. - \<i> * complex_of_real (?r n)) sums (- \<i> * complex_of_real (suminf ?r))"
    by (rule sums_mult)
  then have "(\<Sum>n. - \<i> * complex_of_real (?r n)) = - \<i> * complex_of_real (suminf ?r)"
    by (rule sums_unique[symmetric])
  then have "erf_series (- 2 * \<i>)
               = complex_of_real (2 / sqrt pi) * (- \<i> * complex_of_real (suminf ?r))"
    unfolding erf_series_def erf_term by simp
  also have "\<dots> = - \<i> * complex_of_real (2 / sqrt pi * suminf ?r)" by simp
  finally have "erf_series (- 2 * \<i>) = - \<i> * complex_of_real (2 / sqrt pi * suminf ?r)" .
  moreover have "0 < 2 / sqrt pi * suminf ?r" using pos by simp
  ultimately show ?thesis by blast
qed

lemma BrendelDHO_eps_example:
  "BrendelDHO_eps e [1, 1, 0, 1] [1, 1]
     = Inr [Inr (brendel_example_value e), Inr (brendel_example_value e)]"
proof -
  have z2: "- (\<i> * 2) = - 2 * \<i>" by simp
  show ?thesis
    by (simp add: BrendelDHO_eps_def np_cdiv_def brendel_example_value_def z2)
qed

lemma BrendelDHO_eps_example_zero:
  "BrendelDHO_eps e [1, 1, 0, 1] [0, 1]
     = Inr [Inl NonFinite, Inr (brendel_example_value e)]"
proof -
  have z2: "- (\<i> * 2) = - 2 * \<i>" by simp
  show ?thesis
    by (simp add: BrendelDHO_eps_def np_cdiv_def brendel_example_value_def z2)
qed

lemma then_do_eq_Inl:
  "then_do m k = Inl e \<longleftrightarrow> m = Inl e \<or> (\<exists>x. m = Inr x \<and> k x = Inl e)"
  by (cases m) simp_all

lemma np_cdiv_chain_Inl:
  "then_do (np_cdiv a b) (\<lambda>p. then_do (np_cdiv c d) (\<lambda>q. then_do (np_cdiv a' b') (\<lambda>r.
     then_do (np_cdiv c' d') (\<lambda>s. Inr (K p q r s))))) = Inl err \<Longrightarrow> err = NonFinite"
  by (simp add: np_cdiv_def split: if_splits)

lemma BrendelDHO_eps_entries:
  assumes "BrendelDHO_eps e ps w = Inr eps" and "Inl err \<in> set eps"
  shows "err = NonFinite"
  using assms
  apply (clarsimp simp: BrendelDHO_eps_def then_do_eq_Inr)
  apply (drule sym[of "Inl err"])
  apply (erule np_cdiv_chain_Inl)
  done

lemma elementwise_id_Inl: "elementwise (\<lambda>z. z) zs = Inl err \<Longrightarrow> Inl err \<in> set zs"
  by (induction zs) (auto simp: then_do_eq_Inl)

lemma elementwise_id_Inr: "elementwise (\<lambda>z. z) zs = Inr cs \<Longrightarrow> zs = map Inr cs"
  by (induction zs arbitrary: cs) (auto simp: then_do_eq_Inr)

lemma scipy_erfcx_0: "scipy_erfcx 0 = 1"
  by (simp add: scipy_erfcx_def erf_series_0)

lemma brendel_example_value_negative: "Re (brendel_example_value scipy_erfcx) < 0"
proof -
  from erf_series_imaginary obtain s where s: "0 < s"
    "erf_series (- 2 * \<i>) = - \<i> * complex_of_real s" by blast
  have sq: "(- 2 * \<i>)\<^sup>2 = complex_of_real (- 4)" by (simp add: power2_eq_square)
  have "scipy_erfcx (- 2 * \<i>)
          = exp (complex_of_real (- 4)) * (1 - (- \<i> * complex_of_real s))"
    by (simp only: scipy_erfcx_def sq s(2))
  also have "\<dots> = complex_of_real (exp (- 4)) * (1 + \<i> * complex_of_real s)"
    unfolding exp_of_real by (simp add: algebra_simps)
  finally have e0: "scipy_erfcx (- 2 * \<i>)
          = complex_of_real (exp (- 4)) * (1 + \<i> * complex_of_real s)" .
  have "- 2 * \<i> = - (2 * \<i>)" by simp
  with e0 have e: "scipy_erfcx (- (2 * \<i>))
          = complex_of_real (exp (- 4)) * (1 + \<i> * complex_of_real s)" by simp
  define c where "c = sqrt 3.14149 / sqrt 22 * exp (- 0.5)"
  have c: "0 < c" by (simp add: c_def)
  have v: "brendel_example_value scipy_erfcx
             = \<i> * complex_of_real c * (1 + complex_of_real (exp (- 4)) * (1 + \<i> * complex_of_real s))"
    by (simp add: brendel_example_value_def scipy_erfcx_0 e c_def)
  have "Re (brendel_example_value scipy_erfcx) = - (c * (exp (- 4) * s))"
    unfolding v by simp
  moreover have "0 < c * (exp (- 4) * s)" using c s(1) by simp
  ultimately show ?thesis by simp
qed

text \<open>
  Claim C4, amended. Calling a lineshape leaves every attribute but \<open>f\<close> as it was.
  A lineshape of any class other than BrendelDHO is left unchanged altogether, and so is
  any lineshape whose call raises an exception. A call of a BrendelDHO lineshape that
  raises nothing has stored \<open>eps.real[1]\<close> in \<open>f\<close>: when it returns arrays of numbers
  \<open>(rp, cp)\<close>, that is \<open>rp[1]\<close>; when numpy met a zero divisor and the arrays hold
  \<open>inf\<close> or \<open>nan\<close> (\<open>NonFinite\<close>), \<open>eps\<close> has been computed for at least two
  frequencies and \<open>f\<close> holds the real part of its entry 1, be it a number or not.
  (The call only reads the store of the parameter lists.)
\<close>

theorem lineshape_call_frame_effect:
  "fst (lineshape_call lib h self w) = self\<lparr>f := f (fst (lineshape_call lib h self w))\<rparr>
   \<and> (cls self \<noteq> BrendelDHO \<longrightarrow> fst (lineshape_call lib h self w) = self)
   \<and> (snd (lineshape_call lib h self w) = Inl e \<longrightarrow> e \<noteq> NonFinite \<longrightarrow>
        fst (lineshape_call lib h self w) = self)
   \<and> (cls self = BrendelDHO \<longrightarrow> snd (lineshape_call lib h self w) = Inr (rp, cp) \<longrightarrow>
        f (fst (lineshape_call lib h self w)) = Some (Number (rp ! 1)))
   \<and> (cls self = BrendelDHO \<longrightarrow> snd (lineshape_call lib h self w) = Inl NonFinite \<longrightarrow>
        (\<exists>eps. BrendelDHO_eps (erfcx lib) (h (p self)) w = Inr eps \<and> 1 < length eps
           \<and> f (fst (lineshape_call lib h self w)) = Some (np_real (eps ! 1))))"
proof (intro conjI impI)
  from lineshape_call_frame obtain v where v: "fst (lineshape_call lib h self w) = self\<lparr>f := v\<rparr>"
    by blast
  then have "f (fst (lineshape_call lib h self w)) = v" by simp
  with v show "fst (lineshape_call lib h self w)
                 = self\<lparr>f := f (fst (lineshape_call lib h self w))\<rparr>" by simp
next
  assume "cls self \<noteq> BrendelDHO"
  then show "fst (lineshape_call lib h self w) = self" by (rule lineshape_call_other)
next
  assume e: "snd (lineshape_call lib h self w) = Inl e" and n: "e \<noteq> NonFinite"
  show "fst (lineshape_call lib h self w) = self"
  proof (cases "cls self = BrendelDHO")
    case False
    then show ?thesis by (rule lineshape_call_other)
  next
    case True
    then have c: "lineshape_call lib h self w = BrendelDHO_call (erfcx lib) h self w"
      by (simp add: lineshape_call_def)
    show ?thesis
    proof (cases "BrendelDHO_eps (erfcx lib) (h (p self)) w")
      case (Inl a)
      then show ?thesis by (simp add: c BrendelDHO_call_def)
    next
      case (Inr eps)
      show ?thesis
      proof (cases "getitem eps 1")
        case (Inl a)
        then show ?thesis using Inr by (simp add: c BrendelDHO_call_def)
      next
        case g: (Inr v)
        have "elementwise (\<lambda>z. z) eps = Inl e"
          using e Inr g by (simp add: c BrendelDHO_call_def then_do_eq_Inl)
        then have "Inl e \<in> set eps" by (rule elementwise_id_Inl)
        with Inr have "e = NonFinite" by (rule BrendelDHO_eps_entries)
        with n show ?thesis by simp
      qed
    qed
  qed
next
  assume b: "cls self = BrendelDHO" and r: "snd (lineshape_call lib h self w) = Inr (rp, cp)"
  from b have c: "lineshape_call lib h self w = BrendelDHO_call (erfcx lib) h self w"
    by (simp add: lineshape_call_def)
  from r obtain eps v where eps: "BrendelDHO_eps (erfcx lib) (h (p self)) w = Inr eps"
    and g: "getitem eps 1 = Inr v"
    by (auto simp: c BrendelDHO_call_def split: sum.splits)
  from r eps g obtain zs where zs: "elementwise (\<lambda>z. z) eps = Inr zs" and rp: "rp = map Re zs"
    by (auto simp: c BrendelDHO_call_def then_do_eq_Inr)
  from zs have m: "eps = map Inr zs" by (rule elementwise_id_Inr)
  from g have "1 < length eps" and "v = eps ! 1" by (auto simp: getitem_def split: if_splits)
  then have "np_real v = Number (rp ! 1)" using m rp by (simp add: np_real_def)
  then show "f (fst (lineshape_call lib h self w)) = Some (Number (rp ! 1))"
    using eps g by (simp add: c BrendelDHO_call_def)
next
  assume b: "cls self = BrendelDHO" and r: "snd (lineshape_call lib h self w) = Inl NonFinite"
  from b have c: "lineshape_call lib h self w = BrendelDHO_call (erfcx lib) h self w"
    by (simp add: lineshape_call_def)
  show "\<exists>eps. BrendelDHO_eps (erfcx lib) (h (p self)) w = Inr eps \<and> 1 < length eps
           \<and> f (fst (lineshape_call lib h self w)) = Some (np_real (eps ! 1))"
  proof (cases "BrendelDHO_eps (erfcx lib) (h (p self)) w")
    case (Inl a)
    then have "a = NonFinite" using r by (simp add: c BrendelDHO_call_def)
    then have "BrendelDHO_eps (erfcx lib) (h (p self)) w = Inl NonFinite" using Inl by simp
    then have False
      by (auto simp: BrendelDHO_eps_def then_do_eq_Inl getitem_def split: if_splits)
    then show ?thesis ..
  next
    case (Inr eps)
    show ?thesis
    proof (cases "getitem eps 1")
      case (Inl a)
      then have "a = NonFinite" using r Inr by (simp add: c BrendelDHO_call_def)
      then have False using Inl by (simp add: getitem_def split: if_splits)
      then show ?thesis ..
    next
      case g: (Inr v)
      then have "1 < length eps" and "v = eps ! 1"
        by (auto simp: getitem_def split: if_splits)
      moreover have "f (fst (lineshape_call lib h self w)) = Some (np_real v)"
        using Inr g by (simp add: c BrendelDHO_call_def)
      ultimately show ?thesis using Inr by simp
    qed
  qed
qed

lemma example_Brendel_fields:
  "cls example_Brendel = BrendelDHO" "p example_Brendel = 20"
  "f example_Brendel = Some (Number 0)"
  "example_Brendel_heap 20 = [1, 1, 0, 1]"
  by (simp_all add: example_Brendel_def BrendelDHO_init_def Lineshape_init_def
      example_Brendel_heap_def)

lemma example_Brendel_call:
  "BrendelDHO_call e example_Brendel_heap example_Brendel [1, 1]
     = (example_Brendel\<lparr>f := Some (Number (Re (brendel_example_value e)))\<rparr>,
        Inr ([Re (brendel_example_value e), Re (brendel_example_value e)],
             [Im (brendel_example_value e), Im (brendel_example_value e)]))"
  by (simp add: BrendelDHO_call_def example_Brendel_fields BrendelDHO_eps_example
      getitem_def np_real_def)

lemma example_Brendel_call_zero:
  "BrendelDHO_call e example_Brendel_heap example_Brendel [0, 1]
     = (example_Brendel\<lparr>f := Some (Number (Re (brendel_example_value e)))\<rparr>, Inl NonFinite)"
  by (simp add: BrendelDHO_call_def example_Brendel_fields BrendelDHO_eps_example_zero
      getitem_def np_real_def)

lemma example_Brendel_call_short:
  "BrendelDHO_call e example_Brendel_heap example_Brendel [1] = (example_Brendel, Inl IndexError)"
proof -
  have "\<exists>eps. BrendelDHO_eps e [1, 1, 0, 1] [1] = Inr [eps]"
    by (simp add: BrendelDHO_eps_def)
  then show ?thesis
    by (auto simp: BrendelDHO_call_def example_Brendel_fields getitem_def)
qed

text \<open>
  The theorem at a Debye lineshape and at the example BrendelDHO lineshape: called with
  one frequency (IndexError, nothing stored), with the frequencies \<open>[1, 1]\<close> (returns,
  \<open>rp[1]\<close> stored) and with the frequencies \<open>[0, 1]\<close> (\<open>1/a\<close> divides by zero at the
  frequency 0, entry 1 of \<open>eps\<close> is a number and is stored).
\<close>

theorem lineshape_call_frame_effect_witness:
  "\<forall>lib :: numlib.
     cls (Debye_init 10 [unbounded, unbounded] ''Debye'') \<noteq> BrendelDHO
   \<and> fst (lineshape_call lib example_heap (Debye_init 10 [unbounded, unbounded] ''Debye'') [1])
       = Debye_init 10 [unbounded, unbounded] ''Debye''
   \<and> cls example_Brendel = BrendelDHO
   \<and> snd (lineshape_call lib example_Brendel_heap example_Brendel [1]) = Inl IndexError
   \<and> IndexError \<noteq> NonFinite
   \<and> fst (lineshape_call lib example_Brendel_heap example_Brendel [1]) = example_Brendel
   \<and> snd (lineshape_call lib example_Brendel_heap example_Brendel [1, 1])
       = Inr ([Re (brendel_example_value (erfcx lib)), Re (brendel_example_value (erfcx lib))],
              [Im (brendel_example_value (erfcx lib)), Im (brendel_example_value (erfcx lib))])
   \<and> f (fst (lineshape_call lib example_Brendel_heap example_Brendel [1, 1]))
       = Some (Number (Re (brendel_example_value (erfcx lib))))
   \<and> snd (lineshape_call lib example_Brendel_heap example_Brendel [0, 1]) = Inl NonFinite
   \<and> BrendelDHO_eps (erfcx lib) (example_Brendel_heap (p example_Brendel)) [0, 1]
       = Inr [Inl NonFinite, Inr (brendel_example_value (erfcx lib))]
   \<and> f (fst (lineshape_call lib example_Brendel_heap example_Brendel [0, 1]))
       = Some (Number (Re (brendel_example_value (erfcx lib))))"
proof (intro allI conjI)
  fix lib :: numlib
  let ?D = "Debye_init 10 [unbounded, unbounded] ''Debye''"
  let ?v = "brendel_example_value (erfcx lib)"
  show d: "cls ?D \<noteq> BrendelDHO" by (simp add: Debye_init_def Lineshape_init_def)
  show "fst (lineshape_call lib example_heap ?D [1]) = ?D"
    using lineshape_call_frame_effect[of lib example_heap ?D "[1]"] d by simp
  show b: "cls example_Brendel = BrendelDHO" by (rule example_Brendel_fields)
  show e: "snd (lineshape_call lib example_Brendel_heap example_Brendel [1]) = Inl IndexError"
    by (simp add: lineshape_call_def b example_Brendel_call_short)
  show n: "IndexError \<noteq> NonFinite" by simp
  show "fst (lineshape_call lib example_Brendel_heap example_Brendel [1]) = example_Brendel"
    using lineshape_call_frame_effect[of lib example_Brendel_heap example_Brendel "[1]" IndexError]
      e n
    by simp
  show r: "snd (lineshape_call lib example_Brendel_heap example_Brendel [1, 1])
       = Inr ([Re ?v, Re ?v], [Im ?v, Im ?v])"
    by (simp add: lineshape_call_def b example_Brendel_call)
  show "f (fst (lineshape_call lib example_Brendel_heap example_Brendel [1, 1]))
          = Some (Number (Re ?v))"
    using lineshape_call_frame_effect[of lib example_Brendel_heap example_Brendel "[1, 1]" _
        "[Re ?v, Re ?v]" "[Im ?v, Im ?v]"] b r
    by simp
  show z: "snd (lineshape_call lib example_Brendel_heap example_Brendel [0, 1]) = Inl NonFinite"
    by (simp add: lineshape_call_def b example_Brendel_call_zero)
  show eps: "BrendelDHO_eps (erfcx lib) (example_Brendel_heap (p example_Brendel)) [0, 1]
       = Inr [Inl NonFinite, Inr ?v]"
    by (simp add: example_Brendel_fields BrendelDHO_eps_example_zero)
  have "\<exists>eps. BrendelDHO_eps (erfcx lib) (example_Brendel_heap (p example_Brendel)) [0, 1] = Inr eps
          \<and> 1 < length eps
          \<and> f (fst (lineshape_call lib example_Brendel_heap example_Brendel [0, 1]))
              = Some (np_real (eps ! 1))"
    using lineshape_call_frame_effect[of lib example_Brendel_heap example_Brendel "[0, 1]"] b z
    by simp
  then show "f (fst (lineshape_call lib example_Brendel_heap example_Brendel [0, 1]))
          = Some (Number (Re ?v))"
    unfolding eps by (auto simp: np_real_def)
qed

text \<open>
  Claim C4 as stated fails for BrendelDHO. \<open>BrendelDHO(params=[1,1,0,1])\<close> has
  \<open>f = 0\<close>; after the call on the array \<open>[1, 1]\<close> its \<open>f\<close> is \<open>eps.real[1]\<close>, a
  negative number. The call on the array \<open>[0, 1]\<close>, where numpy warns of the division
  by zero at the first frequency, stores the same number.
\<close>

theorem BrendelDHO_call_stores_f:
  "cls example_Brendel = BrendelDHO
   \<and> example_Brendel_heap (p example_Brendel) = [1, 1, 0, 1]
   \<and> f example_Brendel = Some (Number 0)
   \<and> f (fst (BrendelDHO_call scipy_erfcx example_Brendel_heap example_Brendel [1, 1]))
       = Some (Number (Re (brendel_example_value scipy_erfcx)))
   \<and> f (fst (BrendelDHO_call scipy_erfcx example_Brendel_heap example_Brendel [0, 1]))
       = Some (Number (Re (brendel_example_value scipy_erfcx)))
   \<and> Re (brendel_example_value scipy_erfcx) < 0"
  by (simp add: example_Brendel_fields example_Brendel_call example_Brendel_call_zero
      brendel_example_value_negative)

section \<open>The block averages of the k, omega script\<close>

lemma block_average_frame:
  "block_average y n is temp = Inr temp' \<Longrightarrow> \<forall>i\<in>set is. i - 1 < m \<Longrightarrow>
   length temp' = length temp \<and> drop m temp' = drop m temp"
proof (induction "is" arbitrary: temp)
  case Nil
  then show ?case by simp
next
  case (Cons i "is")
  from Cons.prems(1) obtain v where
    r: "block_average y n is (temp[i - 1 := v]) = Inr temp'"
    by (auto simp: then_do_eq_Inr)
  have "\<forall>i\<in>set is. i - 1 < m" using Cons.prems(2) by simp
  from Cons.IH[OF r this] have "length temp' = length temp"
    and "drop m temp' = drop m (temp[i - 1 := v])" by simp_all
  moreover have "i - 1 < m" using Cons.prems(2) by simp
  ultimately show ?case by simp
qed

lemma chikw_loop_last_two:
  "chikw_loop fi cf ts c0 n np2 ks temp chikw = Inr res \<Longrightarrow>
   drop (num_points - 2) temp = [0, 0] \<Longrightarrow> list_all last_two_zero chikw \<Longrightarrow>
   list_all last_two_zero res"
proof (induction ks arbitrary: temp chikw)
  case Nil
  then show ?case by simp
next
  case (Cons k ks)
  from Cons.prems(1) obtain y temp' c where
    b: "block_average y n [1..<num_points - 1] temp = Inr temp'"
    and r: "chikw_loop fi cf ts c0 n np2 ks temp' (chikw[k := map (\<lambda>t. - c * Im t) temp']) = Inr res"
    by (auto simp: then_do_eq_Inr)
  have "\<forall>i\<in>set [1..<num_points - 1]. i - 1 < num_points - 2" by auto
  from block_average_frame[OF b this]
  have t: "drop (num_points - 2) temp' = [0, 0]" using Cons.prems(2) by simp
  have "drop (num_points - 2) (map (\<lambda>t. - c * Im t) temp') = [0, 0]"
    unfolding drop_map t by simp
  then have col: "last_two_zero (map (\<lambda>t. - c * Im t) temp')" by (simp add: last_two_zero_def)
  have "list_all last_two_zero (chikw[k := map (\<lambda>t. - c * Im t) temp'])"
    using Cons.prems(3) col by (auto simp: list_all_iff dest: set_update_subset_insert[THEN subsetD])
  from Cons.IH[OF r t this] show ?case .
qed

text \<open>
  The loop does get through: with a nonzero \<open>timestep\<close>, blocks of at least one
  element, an \<open>ifft\<close> that returns arrays of at least \<open>(num_points - 2) * num_avg_over\<close>
  elements, and an entry of \<open>chik0\<close> for every column, it returns.
\<close>

lemma block_average_returns:
  "0 < n \<Longrightarrow> \<forall>i\<in>set is. 0 < i \<and> (i - 1) * n < length y \<Longrightarrow>
   \<exists>temp'. block_average y n is temp = Inr temp'"
proof (induction "is" arbitrary: temp)
  case Nil
  then show ?case by simp
next
  case (Cons i "is")
  have i: "0 < i" "(i - 1) * n < length y" using Cons.prems(2) by simp_all
  then have "0 < i * n - (i - 1) * n"
    using Cons.prems(1) by (cases i) simp_all
  then have "py_slice y ((i - 1) * n) (i * n) \<noteq> []"
    using i(2) by (simp add: py_slice_def)
  then obtain m where m: "np_mean (py_slice y ((i - 1) * n) (i * n)) = Inr m"
    by (simp add: np_mean_def)
  have "\<forall>i\<in>set is. 0 < i \<and> (i - 1) * n < length y" using Cons.prems(2) by simp
  from Cons.IH[OF Cons.prems(1) this, of "temp[i - 1 := m]"] show ?case
    using m by simp
qed

lemma chikw_loop_returns:
  assumes "timestep \<noteq> 0" "0 < n"
    and "\<forall>xs. \<exists>y. fft_ifft xs np2 = Inr y \<and> (num_points - 2) * n \<le> length y"
    and "\<forall>k\<in>set ks. k < length corr_funs \<and> k < length chik0"
  shows "\<exists>res. chikw_loop fft_ifft corr_funs timestep chik0 n np2 ks temp chikw = Inr res"
  using assms(4)
proof (induction ks arbitrary: temp chikw)
  case Nil
  then show ?case by simp
next
  case (Cons k ks)
  let ?corr = "corr_funs ! k"
  have k: "getitem corr_funs k = Inr ?corr" "getitem chik0 k = Inr (chik0 ! k)"
    using Cons.prems by (simp_all add: getitem_nth)
  have "\<forall>d\<in>set (np_diff ?corr). np_div d timestep = Inr (d / timestep)"
    using assms(1) by (simp add: np_div_def)
  then have td: "elementwise (\<lambda>d. np_div d timestep) (np_diff ?corr)
                   = Inr (map (\<lambda>d. d / timestep) (np_diff ?corr))"
    by (rule elementwise_total)
  from assms(3) obtain y where
    y: "fft_ifft (map complex_of_real (map (\<lambda>d. d / timestep) (np_diff ?corr))) np2 = Inr y"
       "(num_points - 2) * n \<le> length y"
    by blast
  have "\<forall>i\<in>set [1..<num_points - 1]. 0 < i \<and> (i - 1) * n < length y"
  proof
    fix i assume i: "i \<in> set [1..<num_points - 1]"
    then have "i - 1 < num_points - 2" by auto
    then have "(i - 1) * n < (num_points - 2) * n" using assms(2) by simp
    then have "(i - 1) * n < length y" using y(2) by (rule less_le_trans)
    then show "0 < i \<and> (i - 1) * n < length y" using i by simp
  qed
  from block_average_returns[OF assms(2) this, of temp] obtain temp' where
    b: "block_average y n [1..<num_points - 1] temp = Inr temp'" by blast
  have "\<forall>k\<in>set ks. k < length corr_funs \<and> k < length chik0" using Cons.prems by simp
  from Cons.IH[OF this, of temp' "chikw[k := map (\<lambda>t. - (chik0 ! k) * Im t) temp']"]
  show ?case using k td y(1) b by simp
qed

text \<open>
  Claim C7 does not hold of the code. The inner loop stops at \<open>i = num_points - 2\<close>, so
  it fills \<open>temp[0]\<close> to \<open>temp[num_points - 3]\<close> and never the last two entries of
  \<open>temp\<close>: whenever the script gets through the loop, the last two entries of every
  column of \<open>chikw\<close> are 0, whatever the data and whatever \<open>ifft\<close> returns, and not
  the averages of the blocks 998 and 999.
\<close>

theorem kw_chikw_last_two_rows_zero:
  "(case kw_chikw fft_ifft corr_funs timestep chik0 ntimesteps of
      Inl e \<Rightarrow> True
    | Inr chikw \<Rightarrow> list_all (\<lambda>col. drop (num_points - 2) col = [0, 0]) chikw)"
proof (cases "kw_chikw fft_ifft corr_funs timestep chik0 ntimesteps")
  case (Inl e)
  then show ?thesis by simp
next
  case (Inr chikw)
  then have l: "chikw_loop fft_ifft corr_funs timestep chik0 (ntimesteps div num_points)
             (nat (py_int (2 powr of_int \<lceil>log 2 (real ntimesteps)\<rceil>)))
             [0..<length corr_funs] (replicate num_points 0)
             (replicate (length corr_funs) (np_zeros num_points)) = Inr chikw"
    by (simp add: kw_chikw_def split: if_splits)
  have z: "drop (num_points - 2) (replicate num_points (0::complex)) = [0, 0]"
    by (simp add: num_points_def numeral_2_eq_2)
  have "drop (num_points - 2) (np_zeros num_points) = [0, 0]"
    by (simp add: num_points_def np_zeros_def numeral_2_eq_2)
  then have "list_all last_two_zero (replicate (length corr_funs) (np_zeros num_points))"
    by (simp add: list_all_iff last_two_zero_def)
  from chikw_loop_last_two[OF l z this] show ?thesis
    using Inr by (simp add: last_two_zero_def[abs_def])
qed

end
